theory Spec2Isabelle
  imports Complex_Main
begin

section \<open>Neon wireframe ornaments: a model of ornament.c\<close>

text \<open>
  The C program computes with \<^verbatim>\<open>float\<close>. Here a \<^verbatim>\<open>float\<close> is an ideal real number:
  \<^verbatim>\<open>sinf\<close>, \<^verbatim>\<open>cosf\<close>, \<^verbatim>\<open>sqrtf\<close>, \<^verbatim>\<open>acosf\<close> are the real functions, a literal such as
  \<^verbatim>\<open>0.05f\<close> is its decimal value, and no arithmetic operation rounds. Infinities and NaN
  have no counterpart, so a statement that depends on a division is made only where the
  divisor is not zero. What is proved below of a value computed in \<^verbatim>\<open>float\<close> is therefore
  proved up to the rounding of the operations that compute it; how rounding errors add up
  over many operations is outside the model. The counterexamples below do not depend on
  rounding.
  C \<^verbatim>\<open>int\<close> values are mathematical integers; a conversion to \<^verbatim>\<open>unsigned\<close> is written
  out as a reduction modulo \<open>2 ^ 32\<close>, and the result of \<^verbatim>\<open>atoi\<close> as a reduction to the
  32 bits of an \<^verbatim>\<open>int\<close>.
\<close>

subsection \<open>The conversion of a time stamp to \<^verbatim>\<open>float\<close>\<close>

text \<open>The clock of the program is a \<^verbatim>\<open>double\<close>, and the casts \<^verbatim>\<open>(float)t\<close> of line 505
  and \<^verbatim>\<open>(float)(now - last)\<close> of line 593 round it to 24 significant bits, which changes
  a large time stamp by whole seconds. The cast is written out: \<open>to_float x\<close> is the
  multiple of the unit in the last place of \<open>x\<close> that is nearest to \<open>x\<close>, the even one of
  two that are equally near. (A value beyond the range of \<^verbatim>\<open>float\<close> becomes an infinity
  in C; that has no counterpart here.)\<close>

definition round_even :: "real \<Rightarrow> int" where
  "round_even r =
     (let f = \<lfloor>r\<rfloor>; d = r - of_int f
      in if d < 1 / 2 then f else if d > 1 / 2 then f + 1 else if even f then f else f + 1)"

definition pow2 :: "int \<Rightarrow> real" where
  "pow2 k = (if 0 \<le> k then 2 ^ nat k else 1 / 2 ^ nat (- k))"

definition to_float :: "real \<Rightarrow> real" where
  "to_float x =
     (if x = 0 then 0
      else let e = max \<lfloor>log 2 \<bar>x\<bar>\<rfloor> (- 126);
               u = pow2 (e - 23)
           in u * of_int (round_even (x / u)))"

subsection \<open>Vectors and quaternions\<close>

text \<open>\<^verbatim>\<open>typedef struct { float x,y,z; } vec3;\<close> and \<^verbatim>\<open>typedef struct { float x,y,z,w; } quat;\<close>
  The selectors carry a prefix, because \<open>x\<close>, \<open>y\<close>, \<open>z\<close>, \<open>w\<close> are needed as variables.\<close>

datatype vec3 = v3 (vx: real) (vy: real) (vz: real)

datatype quat = Quat (qx: real) (qy: real) (qz: real) (qw: real)

definition v3_scale :: "vec3 \<Rightarrow> real \<Rightarrow> vec3" where
  "v3_scale a s = v3 (vx a * s) (vy a * s) (vz a * s)"

definition v3_dot :: "vec3 \<Rightarrow> vec3 \<Rightarrow> real" where
  "v3_dot a b = vx a * vx b + vy a * vy b + vz a * vz b"

definition v3_len :: "vec3 \<Rightarrow> real" where
  "v3_len a = sqrt (v3_dot a a)"

definition v3_norm :: "vec3 \<Rightarrow> vec3" where
  "v3_norm a = (let l = v3_len a in if l > 1 / 10 ^ 8 then v3_scale a (1 / l) else v3 0 0 0)"

definition q_ident :: quat where
  "q_ident = Quat 0 0 0 1"

definition q_from_axis_angle :: "vec3 \<Rightarrow> real \<Rightarrow> quat" where
  "q_from_axis_angle axis rad =
     (let axis' = v3_norm axis; s = sin (rad * (1 / 2))
      in Quat (vx axis' * s) (vy axis' * s) (vz axis' * s) (cos (rad * (1 / 2))))"

definition q_mul :: "quat \<Rightarrow> quat \<Rightarrow> quat" where
  "q_mul a b = Quat
     (qw a * qx b + qx a * qw b + qy a * qz b - qz a * qy b)
     (qw a * qy b - qx a * qz b + qy a * qw b + qz a * qx b)
     (qw a * qz b + qx a * qy b - qy a * qx b + qz a * qw b)
     (qw a * qw b - qx a * qx b - qy a * qy b - qz a * qz b)"

definition q_from_euler :: "real \<Rightarrow> real \<Rightarrow> real \<Rightarrow> quat" where
  "q_from_euler pitch yaw roll =
     (let cx = cos (pitch * (1 / 2)); sx = sin (pitch * (1 / 2));
          cy = cos (yaw * (1 / 2));   sy = sin (yaw * (1 / 2));
          cz = cos (roll * (1 / 2));  sz = sin (roll * (1 / 2))
      in Quat (sx * cy * cz - cx * sy * sz)
              (cx * sy * cz + sx * cy * sz)
              (cx * cy * sz - sx * sy * cz)
              (cx * cy * cz + sx * sy * sz))"

text \<open>The Euclidean length of a quaternion, the \<open>l\<close> of \<^verbatim>\<open>q_norm\<close>.\<close>

definition q_len :: "quat \<Rightarrow> real" where
  "q_len q = sqrt (qx q * qx q + qy q * qy q + qz q * qz q + qw q * qw q)"

definition q_norm :: "quat \<Rightarrow> quat" where
  "q_norm q =
     (let l = q_len q
      in if l < 1 / 10 ^ 8 then q_ident
         else let il = 1 / l in Quat (qx q * il) (qy q * il) (qz q * il) (qw q * il))"

definition q_dot :: "quat \<Rightarrow> quat \<Rightarrow> real" where
  "q_dot a b = qx a * qx b + qy a * qy b + qz a * qz b + qw a * qw b"

definition q_neg :: "quat \<Rightarrow> quat" where
  "q_neg b = Quat (- qx b) (- qy b) (- qz b) (- qw b)"

text \<open>\<^verbatim>\<open>q_slerp\<close>: both arguments are normalised, the second is negated when the dot
  product is negative, and above the threshold \<^verbatim>\<open>0.9995f\<close> the result is the normalised
  linear blend.\<close>

definition q_slerp :: "quat \<Rightarrow> quat \<Rightarrow> real \<Rightarrow> quat" where
  "q_slerp a0 b0 t =
     (let a = q_norm a0; b1 = q_norm b0;
          dot0 = q_dot a b1;
          b = (if dot0 < 0 then q_neg b1 else b1);
          dot = (if dot0 < 0 then - dot0 else dot0)
      in if dot > 9995 / 10000
         then q_norm (Quat (qx a + t * (qx b - qx a)) (qy a + t * (qy b - qy a))
                           (qz a + t * (qz b - qz a)) (qw a + t * (qw b - qw a)))
         else let th = arccos dot;
                  s1 = sin ((1 - t) * th) / sin th;
                  s2 = sin (t * th) / sin th
              in Quat (qx a * s1 + qx b * s2) (qy a * s1 + qy b * s2)
                      (qz a * s1 + qz b * s2) (qw a * s1 + qw b * s2))"

subsection \<open>HSV to RGB and the palette\<close>

text \<open>C's \<^verbatim>\<open>%\<close> on \<^verbatim>\<open>int\<close> truncates towards zero, and \<^verbatim>\<open>fmodf\<close> keeps the sign of its
  first argument. In \<^verbatim>\<open>hsv2rgb\<close> the conversion \<^verbatim>\<open>(int)i\<close> is the floor itself as long as
  \<open>h * 6\<close> lies within the range of \<^verbatim>\<open>int\<close>; the one caller, \<^verbatim>\<open>color_for\<close>, passes a hue
  between \<open>-1\<close> and \<open>1\<close>.\<close>

definition c_rem :: "int \<Rightarrow> int \<Rightarrow> int" where
  "c_rem a b = sgn a * (\<bar>a\<bar> mod \<bar>b\<bar>)"

definition c_trunc :: "real \<Rightarrow> int" where
  "c_trunc r = (if r \<ge> 0 then \<lfloor>r\<rfloor> else \<lceil>r\<rceil>)"

definition fmodf :: "real \<Rightarrow> real \<Rightarrow> real" where
  "fmodf a b = a - b * of_int (c_trunc (a / b))"

definition hsv2rgb :: "real \<Rightarrow> real \<Rightarrow> real \<Rightarrow> vec3" where
  "hsv2rgb h s v =
     (let i = \<lfloor>h * 6\<rfloor>; f = h * 6 - of_int i;
          p = v * (1 - s); q = v * (1 - f * s); t = v * (1 - (1 - f) * s);
          ii = c_rem i 6
      in if ii = 0 then v3 v t p
         else if ii = 1 then v3 q v p
         else if ii = 2 then v3 p v t
         else if ii = 3 then v3 p q v
         else if ii = 4 then v3 t p v
         else v3 v p q)"

datatype ColorKind =
  COL_GREEN | COL_YELLOW | COL_RED | COL_BLUE | COL_CYAN | COL_PINK | COL_ORANGE | COL_PURPLE
  | COL_RANDOM


subsection \<open>Wireframe geometry\<close>

datatype ShapeKind = SH_CUBE | SH_SPHERE | SH_PYRAMID | SH_TORUS | SH_OCT

text \<open>\<^verbatim>\<open>typedef struct { vec3* verts; unsigned* lines; int vcount; int lcount; } WireGeom;\<close>
  The two heap arrays are lists; \<open>lines\<close> holds the endpoint indices in pairs.\<close>

record WireGeom =
  verts :: "vec3 list"
  lines :: "int list"
  vcount :: int
  lcount :: int

definition u32 :: "int \<Rightarrow> int" where
  "u32 n = n mod 2 ^ 32"

definition cube_v :: "vec3 list" where
  "cube_v = [v3 (- 1 / 2) (- 1 / 2) (- 1 / 2), v3 (1 / 2) (- 1 / 2) (- 1 / 2),
             v3 (1 / 2) (1 / 2) (- 1 / 2), v3 (- 1 / 2) (1 / 2) (- 1 / 2),
             v3 (- 1 / 2) (- 1 / 2) (1 / 2), v3 (1 / 2) (- 1 / 2) (1 / 2),
             v3 (1 / 2) (1 / 2) (1 / 2), v3 (- 1 / 2) (1 / 2) (1 / 2)]"

definition cube_e :: "int list" where
  "cube_e = [0,1,1,2,2,3,3,0, 4,5,5,6,6,7,7,4, 0,4,1,5,2,6,3,7]"

definition make_cube :: WireGeom where
  "make_cube = \<lparr>verts = cube_v, lines = cube_e,
                 vcount = int (length cube_v), lcount = int (length cube_e) div 2\<rparr>"

definition pyramid_v :: "vec3 list" where
  "pyramid_v = [v3 (- 1 / 2) 0 (- 1 / 2), v3 (1 / 2) 0 (- 1 / 2), v3 (1 / 2) 0 (1 / 2),
                v3 (- 1 / 2) 0 (1 / 2), v3 0 (8 / 10) 0]"

definition pyramid_e :: "int list" where
  "pyramid_e = [0,1,1,2,2,3,3,0, 0,4,1,4,2,4,3,4]"

definition make_pyramid :: WireGeom where
  "make_pyramid = \<lparr>verts = pyramid_v, lines = pyramid_e,
                    vcount = int (length pyramid_v), lcount = int (length pyramid_e) div 2\<rparr>"

definition octahedron_v :: "vec3 list" where
  "octahedron_v = [v3 0 1 0, v3 1 0 0, v3 0 0 1, v3 (- 1) 0 0, v3 0 0 (- 1), v3 0 (- 1) 0]"

definition octahedron_e :: "int list" where
  "octahedron_e = [0,1,0,2,0,3,0,4, 1,2,2,3,3,4,4,1, 5,1,5,2,5,3,5,4]"

definition make_octahedron :: WireGeom where
  "make_octahedron = \<lparr>verts = octahedron_v, lines = octahedron_e,
                       vcount = int (length octahedron_v),
                       lcount = int (length octahedron_e) div 2\<rparr>"

text \<open>The generators for sphere and torus fill two preallocated buffers through the
  running indices \<^verbatim>\<open>vi\<close> and \<^verbatim>\<open>ei\<close>. The buffers are the lists written so far, so
  \<^verbatim>\<open>vi\<close> is the length of the first and \<^verbatim>\<open>ei\<close> the length of the second, and
  \<^verbatim>\<open>v[vi++] = p\<close> appends. A counting loop \<^verbatim>\<open>for(int j=0;j<n;j++)\<close> is a \<open>fold\<close> over
  \<open>[0..<nat n]\<close>.\<close>

type_synonym geom_buf = "vec3 list \<times> int list"

definition vi_of :: "geom_buf \<Rightarrow> int" where
  "vi_of buf = int (length (fst buf))"

text \<open>One latitude ring (the body of the loop over \<open>i\<close>, lines 182 to 191).\<close>

definition lat_ring_step :: "real \<Rightarrow> real \<Rightarrow> int \<Rightarrow> int \<Rightarrow> nat \<Rightarrow> geom_buf \<Rightarrow> geom_buf" where
  "lat_ring_step r y first_idx seg j buf =
     (let t = 2 * pi * (real j / real_of_int seg);
          v = fst buf @ [v3 (r * cos t) y (r * sin t)]
      in (v, if j > 0 then snd buf @ [u32 (first_idx + int j - 1), u32 (first_idx + int j)]
             else snd buf))"

definition lat_ring :: "int \<Rightarrow> int \<Rightarrow> nat \<Rightarrow> geom_buf \<Rightarrow> geom_buf" where
  "lat_ring lat lon i buf =
     (let a = pi * (real i / real_of_int lat);
          y = cos a; r = sin a;
          first_idx = u32 (vi_of buf);
          seg = lon;
          buf' = fold (lat_ring_step r y first_idx seg) [0..<nat seg] buf
      in (fst buf', snd buf' @ [u32 (first_idx + seg - 1), first_idx]))"

text \<open>One longitude half circle (lines 195 to 202).\<close>

definition lon_ring_step :: "real \<Rightarrow> int \<Rightarrow> nat \<Rightarrow> geom_buf \<Rightarrow> geom_buf" where
  "lon_ring_step t segments k buf =
     (let u = pi * (real k / real_of_int (segments - 1));
          v = fst buf @ [v3 (sin u * cos t) (cos u) (sin u * sin t)]
      in (v, if k > 0 then snd buf @ [u32 (int (length v) - 2), u32 (int (length v) - 1)]
             else snd buf))"

definition lon_ring :: "int \<Rightarrow> int \<Rightarrow> nat \<Rightarrow> geom_buf \<Rightarrow> geom_buf" where
  "lon_ring lat lon j buf =
     (let t = 2 * pi * (real j / real_of_int lon);
          segments = lat * 2
      in fold (lon_ring_step t segments) [0..<nat segments] buf)"

text \<open>One of the three extra rings (lines 207 to 218).\<close>

definition extra_ring_step :: "real \<Rightarrow> int \<Rightarrow> nat \<Rightarrow> geom_buf \<Rightarrow> geom_buf" where
  "extra_ring_step tilt seg j buf =
     (let t = 2 * pi * (real j / real_of_int seg);
          x = cos t; z = sin t; y = 0;
          cy = cos tilt; sy = sin tilt;
          v = fst buf @ [v3 x (y * cy - z * sy) (y * sy + z * cy)]
      in (v, if j > 0 then snd buf @ [u32 (int (length v) - 2), u32 (int (length v) - 1)]
             else snd buf))"

definition extra_ring :: "int \<Rightarrow> nat \<Rightarrow> geom_buf \<Rightarrow> geom_buf" where
  "extra_ring seg r buf =
     (let tilt = (if r = 0 then 0 else if r = 1 then 35 / 100 else - (1 / 2));
          first = u32 (vi_of buf);
          buf' = fold (extra_ring_step tilt seg) [0..<nat seg] buf
      in (fst buf', snd buf' @ [u32 (vi_of buf' - 1), first]))"

text \<open>\<^verbatim>\<open>make_sphere\<close>. The buffers hold \<open>maxv\<close> vertices and \<open>4 * maxv\<close> indices. The
  indices \<^verbatim>\<open>vi\<close> and \<^verbatim>\<open>ei\<close> only grow, so some write falls outside a buffer exactly when
  a final count exceeds the capacity; the C program has no defined result then, and the
  model returns \<open>None\<close>.\<close>

definition sphere_buf :: "int \<Rightarrow> int \<Rightarrow> geom_buf" where
  "sphere_buf lat lon =
     (let b1 = fold (lat_ring lat lon) [1..<nat lat] ([], []);
          b2 = fold (lon_ring lat lon) [0..<nat lon] b1;
          extra = 3; seg = lon * 2
      in fold (extra_ring seg) [0..<nat extra] b2)"

definition make_sphere :: "int \<Rightarrow> int \<Rightarrow> WireGeom option" where
  "make_sphere lat lon =
     (let maxv = (lat + 1) * (lon + 1) + (lat + lon) * 64;
          buf = sphere_buf lat lon;
          vi = int (length (fst buf)); ei = int (length (snd buf))
      in if vi > maxv \<or> ei > maxv * 4 then None
         else Some \<lparr>verts = fst buf, lines = snd buf, vcount = vi, lcount = ei div 2\<rparr>)"

text \<open>\<^verbatim>\<open>make_torus\<close>. The table \<^verbatim>\<open>int idx[128][128]\<close> is a function on index pairs. The
  capacity \<^verbatim>\<open>vcap\<close> is computed before the segment counts are capped at 128.\<close>

definition torus_vert_step ::
  "real \<Rightarrow> real \<Rightarrow> int \<Rightarrow> nat \<Rightarrow> real \<Rightarrow> real \<Rightarrow> nat \<Rightarrow>
     vec3 list \<times> (nat \<Rightarrow> nat \<Rightarrow> int) \<Rightarrow> vec3 list \<times> (nat \<Rightarrow> nat \<Rightarrow> int)" where
  "torus_vert_step R r minorSeg i ca sa j st =
     (let b = 2 * pi * real j / real_of_int minorSeg;
          cb = cos b; sb = sin b;
          x = (R + r * cb) * ca;
          y = (R + r * cb) * sa;
          z = r * sb;
          vi = int (length (fst st))
      in (fst st @ [v3 x z y], (snd st)(i := (snd st i)(j := vi))))"

definition torus_vert_row ::
  "real \<Rightarrow> real \<Rightarrow> int \<Rightarrow> int \<Rightarrow> nat \<Rightarrow>
     vec3 list \<times> (nat \<Rightarrow> nat \<Rightarrow> int) \<Rightarrow> vec3 list \<times> (nat \<Rightarrow> nat \<Rightarrow> int)" where
  "torus_vert_row R r majorSeg minorSeg i st =
     (let a = 2 * pi * real i / real_of_int majorSeg;
          ca = cos a; sa = sin a
      in fold (torus_vert_step R r minorSeg i ca sa) [0..<nat minorSeg] st)"

definition torus_edge_step ::
  "(nat \<Rightarrow> nat \<Rightarrow> int) \<Rightarrow> int \<Rightarrow> int \<Rightarrow> nat \<Rightarrow> nat \<Rightarrow> int list \<Rightarrow> int list" where
  "torus_edge_step idx majorSeg minorSeg i j e =
     (let i2 = nat (c_rem (int i + 1) majorSeg); j2 = nat (c_rem (int j + 1) minorSeg);
          a = u32 (idx i j); b = u32 (idx i2 j); c = u32 (idx i j2)
      in e @ [a, b, a, c])"

definition torus_edge_row ::
  "(nat \<Rightarrow> nat \<Rightarrow> int) \<Rightarrow> int \<Rightarrow> int \<Rightarrow> nat \<Rightarrow> int list \<Rightarrow> int list" where
  "torus_edge_row idx majorSeg minorSeg i e =
     fold (torus_edge_step idx majorSeg minorSeg i) [0..<nat minorSeg] e"

definition torus_maxr :: "vec3 list \<Rightarrow> real" where
  "torus_maxr vs = fold (\<lambda>p maxr. if v3_len p > maxr then v3_len p else maxr) vs 0"

definition torus_verts ::
  "real \<Rightarrow> real \<Rightarrow> int \<Rightarrow> int \<Rightarrow> vec3 list \<times> (nat \<Rightarrow> nat \<Rightarrow> int)" where
  "torus_verts R r majorSeg minorSeg =
     fold (torus_vert_row R r majorSeg minorSeg) [0..<nat majorSeg] ([], \<lambda>i j. 0)"

definition torus_edges :: "(nat \<Rightarrow> nat \<Rightarrow> int) \<Rightarrow> int \<Rightarrow> int \<Rightarrow> int list" where
  "torus_edges idx majorSeg minorSeg =
     fold (torus_edge_row idx majorSeg minorSeg) [0..<nat majorSeg] []"

definition make_torus :: "int \<Rightarrow> int \<Rightarrow> real \<Rightarrow> real \<Rightarrow> WireGeom option" where
  "make_torus majorSeg0 minorSeg0 R r =
     (let vcap = majorSeg0 * minorSeg0;
          majorSeg = (if majorSeg0 > 128 then 128 else majorSeg0);
          minorSeg = (if minorSeg0 > 128 then 128 else minorSeg0);
          st = torus_verts R r majorSeg minorSeg;
          v = fst st; idx = snd st;
          e = torus_edges idx majorSeg minorSeg;
          vi = int (length v); ei = int (length e)
      in if vi > vcap \<or> ei > vcap * 4 then None
         else let maxr = torus_maxr v; s = (1 / 2) / maxr
              in Some \<lparr>verts = map (\<lambda>p. v3_scale p s) v, lines = e,
                        vcount = vi, lcount = ei div 2\<rparr>)"

text \<open>The geometry \<^verbatim>\<open>main\<close> builds for a configured shape (the \<^verbatim>\<open>switch\<close> of lines 463
  to 470).\<close>

fun startup_geom :: "ShapeKind \<Rightarrow> WireGeom option" where
  "startup_geom SH_CUBE = Some make_cube"
| "startup_geom SH_PYRAMID = Some make_pyramid"
| "startup_geom SH_OCT = Some make_octahedron"
| "startup_geom SH_SPHERE = make_sphere 10 16"
| "startup_geom SH_TORUS = make_torus 32 12 1 (35 / 100)"

subsection \<open>Random numbers\<close>

text \<open>\<^verbatim>\<open>rand()\<close> reads and advances a hidden state. The state is the sequence of values the
  coming calls return, together with \<^verbatim>\<open>RAND_MAX\<close>, a constant of \<^verbatim>\<open><stdlib.h>\<close> that the
  repository does not fix. Where a C expression calls \<^verbatim>\<open>rand()\<close> in several arguments of
  one call, the order is unspecified in C; the model draws from left to right.\<close>

record rng =
  RAND_MAX :: int
  draws :: "nat \<Rightarrow> int"

definition rand :: "rng \<Rightarrow> int \<times> rng" where
  "rand g = (draws g 0, g\<lparr>draws := \<lambda>n. draws g (Suc n)\<rparr>)"

definition frand01 :: "rng \<Rightarrow> real \<times> rng" where
  "frand01 g = (let (n, g') = rand g in (real_of_int n / real_of_int (RAND_MAX g), g'))"

definition frand_range :: "real \<Rightarrow> real \<Rightarrow> rng \<Rightarrow> real \<times> rng" where
  "frand_range a b g = (let (f, g') = frand01 g in (a + (b - a) * f, g'))"

text \<open>What the C standard promises of \<^verbatim>\<open>rand()\<close>: every value lies between 0 and
  \<^verbatim>\<open>RAND_MAX\<close>.\<close>

definition rng_ok :: "rng \<Rightarrow> bool" where
  "rng_ok g \<longleftrightarrow> 0 < RAND_MAX g \<and> (\<forall>n. 0 \<le> draws g n \<and> draws g n \<le> RAND_MAX g)"

subsection \<open>The shape runtime record and its per-frame update\<close>

record ShapeRuntime =
  shape :: ShapeKind
  color :: ColorKind
  hue :: real
  hueSpeed :: real
  orient :: quat
  target :: quat
  spinY :: real
  spinX :: real
  reorientTimer :: real
  reorientDur :: real
  reorientT :: real
  worldPos :: vec3
  geom :: WireGeom


text \<open>The fields of the record, to name the target of an assignment.\<close>

datatype rt_field =
  F_shape | F_color | F_hue | F_hueSpeed | F_orient | F_target | F_spinY | F_spinX
  | F_reorientTimer | F_reorientDur | F_reorientT | F_worldPos | F_geom

text \<open>\<^verbatim>\<open>update_shape\<close> (lines 509 to 528) assigns to fields of \<^verbatim>\<open>*s\<close> one after the other.
  The model runs the assignments in the order of the source on a pair of the record and
  the list of fields assigned so far: \<open>assign f upd\<close> is the C assignment to the field
  \<open>f\<close>, \<open>upd\<close> the record update it performs.\<close>

type_synonym tracked = "ShapeRuntime \<times> rt_field list"

definition assign :: "rt_field \<Rightarrow> (ShapeRuntime \<Rightarrow> ShapeRuntime) \<Rightarrow> tracked \<Rightarrow> tracked" where
  "assign f upd st = (upd (fst st), snd st @ [f])"

text \<open>Line 517: the new target, drawn when a reorientation starts.\<close>

definition new_target :: "rng \<Rightarrow> quat \<times> rng" where
  "new_target g =
     (let (pitch, g1) = frand_range (- (3 / 2)) (3 / 2) g;
          (yaw, g2) = frand_range (- (3 / 2)) (3 / 2) g1;
          (roll, g3) = frand_range (- (3 / 2)) (3 / 2) g2
      in (q_from_euler pitch yaw roll, g3))"

text \<open>Lines 516 to 521, the body of the \<^verbatim>\<open>if\<close> of line 515. The result carries the
  value of \<^verbatim>\<open>spinScale\<close>.\<close>

definition reorient_body :: "tracked \<Rightarrow> real \<Rightarrow> rng \<Rightarrow> tracked \<times> real \<times> rng" where
  "reorient_body st dt g =
     (let (st1, g1) =
            (if reorientT (fst st) = 0
             then let (q, g') = new_target g in (assign F_target (\<lambda>s. s\<lparr>target := q\<rparr>) st, g')
             else (st, g));
          st2 = assign F_reorientT (\<lambda>s. s\<lparr>reorientT := reorientT s + dt / reorientDur s\<rparr>) st1
      in if reorientT (fst st2) \<ge> 1
         then let st3 = assign F_orient (\<lambda>s. s\<lparr>orient := target s\<rparr>) st2;
                  st4 = assign F_reorientT (\<lambda>s. s\<lparr>reorientT := 0\<rparr>) st3;
                  (tm, g2) = frand_range 4 8 g1;
                  st5 = assign F_reorientTimer (\<lambda>s. s\<lparr>reorientTimer := tm\<rparr>) st4
              in (st5, 1, g2)
         else (assign F_orient (\<lambda>s. s\<lparr>orient := q_slerp (orient s) (target s) (reorientT s)\<rparr>) st2,
               1 / 2, g1))"

text \<open>Lines 524 to 526: the rotation of one tick of continuous spin.\<close>

definition spin_delta :: "ShapeRuntime \<Rightarrow> real \<Rightarrow> real \<Rightarrow> quat" where
  "spin_delta s spinScale dt =
     (let dYaw = spinY s * spinScale * dt * pi / 180;
          dPitch = spinX s * spinScale * dt * pi / 180
      in q_mul (q_from_axis_angle (v3 0 1 0) dYaw) (q_from_axis_angle (v3 1 0 0) dPitch))"

definition update_shape_tracked :: "ShapeRuntime \<Rightarrow> real \<Rightarrow> rng \<Rightarrow> tracked \<times> rng" where
  "update_shape_tracked s0 dt g =
     (let st1 = assign F_hue (\<lambda>s. s\<lparr>hue := fmodf (hue s + hueSpeed s * dt) 1\<rparr>) (s0, []);
          st2 = assign F_reorientTimer (\<lambda>s. s\<lparr>reorientTimer := reorientTimer s - dt\<rparr>) st1;
          (st3, spinScale, g') =
            (if reorientTimer (fst st2) \<le> 0 \<or> reorientT (fst st2) > 0
             then reorient_body st2 dt g
             else (st2, 1, g));
          dq = spin_delta (fst st3) spinScale dt
      in (assign F_orient (\<lambda>s. s\<lparr>orient := q_mul dq (orient s)\<rparr>) st3, g'))"

text \<open>The record after the call, and the fields the call assigned, in order.\<close>

definition update_shape :: "ShapeRuntime \<Rightarrow> real \<Rightarrow> rng \<Rightarrow> ShapeRuntime \<times> rng" where
  "update_shape s dt g = (fst (fst (update_shape_tracked s dt g)), snd (update_shape_tracked s dt g))"

definition update_shape_writes :: "ShapeRuntime \<Rightarrow> real \<Rightarrow> rng \<Rightarrow> rt_field list" where
  "update_shape_writes s dt g = snd (fst (update_shape_tracked s dt g))"

text \<open>The two tests of a tick: line 515, on the timer that line 513 has just decremented,
  and line 520, on the progress that line 519 has just advanced.\<close>

definition reorienting :: "ShapeRuntime \<Rightarrow> real \<Rightarrow> bool" where
  "reorienting s dt \<longleftrightarrow> reorientTimer s - dt \<le> 0 \<or> reorientT s > 0"

definition completes :: "ShapeRuntime \<Rightarrow> real \<Rightarrow> bool" where
  "completes s dt \<longleftrightarrow> reorienting s dt \<and> reorientT s + dt / reorientDur s \<ge> 1"

subsection \<open>The configuration file\<close>

datatype Anchor = POS_TL | POS_TC | POS_TR | POS_CL | POS_C | POS_CR | POS_BL | POS_BC | POS_BR

text \<open>\<^verbatim>\<open>typedef struct { ShapeKind shape; ColorKind color; Anchor pos; int screen; } ShapeConfig;\<close>
  The constructor takes the fields in the order of the compound literal
  \<^verbatim>\<open>(ShapeConfig){sh, co, po, sc}\<close>.\<close>

datatype ShapeConfig = ShapeConfig (cfg_shape: ShapeKind) (cfg_color: ColorKind) (pos: Anchor) (screen: int)

















text \<open>\<^verbatim>\<open>atoi\<close> of the C library reads white space, an optional sign and then decimal
  digits; what follows the digits is ignored, and the value is 0 when there is no digit.
  \<open>atoi_value\<close> is the number read.\<close>

definition c_isspace :: "char \<Rightarrow> bool" where
  "c_isspace c \<longleftrightarrow> c = CHR '' '' \<or> c = CHR 0x09 \<or> c = CHR 0x0A \<or> c = CHR 0x0B
     \<or> c = CHR 0x0C \<or> c = CHR 0x0D"

definition c_isdigit :: "char \<Rightarrow> bool" where
  "c_isdigit c \<longleftrightarrow> 48 \<le> (of_char c :: nat) \<and> (of_char c :: nat) \<le> 57"

fun digits_val :: "string \<Rightarrow> int \<Rightarrow> int" where
  "digits_val [] acc = acc"
| "digits_val (c # cs) acc =
     (if c_isdigit c then digits_val cs (acc * 10 + (int (of_char c) - 48)) else acc)"

definition atoi_value :: "string \<Rightarrow> int" where
  "atoi_value s =
     (case dropWhile c_isspace s of
        [] \<Rightarrow> 0
      | c # cs \<Rightarrow> if c = CHR ''-'' then - digits_val cs 0
                  else if c = CHR ''+'' then digits_val cs 0
                  else digits_val (c # cs) 0)"

text \<open>The result of \<^verbatim>\<open>atoi\<close> is an \<^verbatim>\<open>int\<close> of 32 bits. Where the number read does not fit,
  the C standard defines no result. The model follows the C libraries of Linux and macOS,
  where \<^verbatim>\<open>atoi(s)\<close> is \<^verbatim>\<open>(int)strtol(s, NULL, 10)\<close>: \<^verbatim>\<open>strtol\<close> stops at the bounds of a
  \<^verbatim>\<open>long\<close> of 64 bits, and the conversion to \<^verbatim>\<open>int\<close> keeps the low 32 bits.\<close>

definition c_long :: "int \<Rightarrow> int" where
  "c_long v = (if v > 2 ^ 63 - 1 then 2 ^ 63 - 1 else if v < - (2 ^ 63) then - (2 ^ 63) else v)"

definition c_int :: "int \<Rightarrow> int" where
  "c_int v = (v + 2 ^ 31) mod 2 ^ 32 - 2 ^ 31"

definition atoi :: "string \<Rightarrow> int" where
  "atoi s = c_int (c_long (atoi_value s))"







text \<open>\<^verbatim>\<open>fgets(line, n, f)\<close> on the unread rest of the file: at most \<open>n - 1\<close> characters, up to
  and including the first newline; \<open>None\<close> at the end of the file.\<close>

fun take_line :: "nat \<Rightarrow> string \<Rightarrow> string \<times> string" where
  "take_line 0 cs = ([], cs)"
| "take_line (Suc k) [] = ([], [])"
| "take_line (Suc k) (c # cs) =
     (if c = CHR 0x0A then ([c], cs)
      else let (l, r) = take_line k cs in (c # l, r))"

definition fgets :: "nat \<Rightarrow> string \<Rightarrow> (string \<times> string) option" where
  "fgets n content = (if content = [] then None else Some (take_line (n - 1) content))"

lemma take_line_append: "fst (take_line n cs) @ snd (take_line n cs) = cs"
  by (induction n cs rule: take_line.induct) (auto split: prod.splits)

lemma take_line_nonempty: "0 < n \<Longrightarrow> cs \<noteq> [] \<Longrightarrow> fst (take_line n cs) \<noteq> []"
  by (induction n cs rule: take_line.induct) (auto split: prod.splits)

lemma fgets_shorter:
  assumes "fgets 512 content = Some (line, rest)"
  shows "length rest < length content"
proof -
  from assms have ne: "content \<noteq> []" and tl: "take_line 511 content = (line, rest)"
    by (auto simp: fgets_def split: if_splits)
  have "line \<noteq> []" using take_line_nonempty [of 511 content] ne tl by simp
  moreover have "line @ rest = content" using take_line_append [of 511 content] tl by simp
  ultimately show ?thesis by (cases line) auto
qed





text \<open>The buffers that the successive calls of \<^verbatim>\<open>fgets\<close> deliver: the lines of the file,
  a line of more than 511 bytes in pieces.\<close>

function file_lines :: "string \<Rightarrow> string list" where
  "file_lines content =
     (case fgets 512 content of
        None \<Rightarrow> []
      | Some (line, rest) \<Rightarrow> line # file_lines rest)"
  by pat_completeness auto
termination file_lines
  by (relation "measure length") (auto dest: fgets_shorter)

declare file_lines.simps [simp del]






subsection \<open>Placement and the runtime records built by \<^verbatim>\<open>main\<close>\<close>

fun anchor_to_ndc :: "Anchor \<Rightarrow> vec3" where
  "anchor_to_ndc POS_TL = v3 (- 1) 1 0"
| "anchor_to_ndc POS_TC = v3 0 1 0"
| "anchor_to_ndc POS_TR = v3 1 1 0"
| "anchor_to_ndc POS_CL = v3 (- 1) 0 0"
| "anchor_to_ndc POS_C = v3 0 0 0"
| "anchor_to_ndc POS_CR = v3 1 0 0"
| "anchor_to_ndc POS_BL = v3 (- 1) (- 1) 0"
| "anchor_to_ndc POS_BC = v3 0 (- 1) 0"
| "anchor_to_ndc POS_BR = v3 1 (- 1) 0"

text \<open>\<^verbatim>\<open>anchor_margin\<close>: four \<^verbatim>\<open>if\<close> statements in a row, each on the value the one
  before left.\<close>

definition anchor_margin :: "vec3 \<Rightarrow> real \<Rightarrow> vec3" where
  "anchor_margin a m =
     (let x1 = (if vx a < 0 then vx a + m else vx a);
          x2 = (if x1 > 0 then x1 - m else x1);
          y1 = (if vy a > 0 then vy a - m else vy a);
          y2 = (if y1 < 0 then y1 + m else y1)
      in v3 x2 y2 (vz a))"

text \<open>Line 454: the configured screen, clamped to the monitors there are.\<close>

definition clamp_mon :: "int \<Rightarrow> int \<Rightarrow> int" where
  "clamp_mon monCount scr =
     (let mon1 = (if scr < 0 then 0 else scr)
      in if mon1 \<ge> monCount then monCount - 1 else mon1)"

text \<open>Lines 456 to 459 for a shape with anchor \<open>a\<close> that found the counter of its monitor and
  anchor at \<open>qn\<close>.\<close>

definition place :: "Anchor \<Rightarrow> int \<Rightarrow> vec3" where
  "place a qn =
     (let anc = anchor_to_ndc a;
          p = anchor_margin anc (12 / 100);
          off = (5 / 100) * real_of_int qn
      in v3 (vx p + (if vx anc \<ge> 0 then - off else off))
            (vy p + (if vy anc \<ge> 0 then - off else off))
            (vz p))"

text \<open>Lines 472 to 477: the record of a new shape. The draws follow the order of the
  assignments.\<close>

definition init_runtime :: "ShapeConfig \<Rightarrow> vec3 \<Rightarrow> WireGeom \<Rightarrow> rng \<Rightarrow> ShapeRuntime \<times> rng" where
  "init_runtime sc p g r0 =
     (let (h, r1) = frand01 r0;
          (hs, r2) = frand_range (25 / 100) (5 / 10) r1;
          (pitch, r3) = frand_range (- 1) 1 r2;
          (yaw, r4) = frand_range (- 1) 1 r3;
          (roll, r5) = frand_range (- 1) 1 r4;
          (sy, r6) = frand_range 180 360 r5;
          (sx, r7) = frand_range 15 45 r6;
          (tm, r8) = frand_range 4 8 r7;
          (du, r9) = frand_range (15 / 10) (25 / 10) r8
      in (\<lparr>shape = cfg_shape sc, color = cfg_color sc, hue = h, hueSpeed = hs,
           orient = q_ident, target = q_from_euler pitch yaw roll, spinY = sy, spinX = sx,
           reorientTimer = tm, reorientDur = du, reorientT = 0, worldPos = p, geom = g\<rparr>, r9))"

text \<open>The loop of lines 452 to 479 over the configured shapes. The table
  \<^verbatim>\<open>int quadrantCount[16][POS_COUNT]\<close> is a function of monitor and anchor; the C table has
  rows for 16 monitors only. The result is \<open>None\<close> when a geometry generator left its
  buffers.\<close>

fun build_runtime ::
  "int \<Rightarrow> ShapeConfig list \<Rightarrow> (int \<Rightarrow> Anchor \<Rightarrow> int) \<Rightarrow> rng \<Rightarrow> (ShapeRuntime list \<times> rng) option" where
  "build_runtime monCount [] quadrantCount r0 = Some ([], r0)"
| "build_runtime monCount (sc # scs) quadrantCount r0 =
     (let mon = clamp_mon monCount (screen sc);
          qn = quadrantCount mon (pos sc);
          quadrantCount' = quadrantCount(mon := (quadrantCount mon)(pos sc := qn + 1));
          p = place (pos sc) qn
      in case startup_geom (cfg_shape sc) of
           None \<Rightarrow> None
         | Some g \<Rightarrow>
             (let (R, r1) = init_runtime sc p g r0
              in case build_runtime monCount scs quadrantCount' r1 of
                   None \<Rightarrow> None
                 | Some (Rs, r2) \<Rightarrow> Some (R # Rs, r2)))"

subsection \<open>The render loop\<close>

text \<open>What \<^verbatim>\<open>app_loop\<close> reads from outside in its \<open>k\<close>-th iteration: the values of
  \<^verbatim>\<open>glfwWindowShouldClose\<close> for the windows in order (line 590), and the value of
  \<^verbatim>\<open>glfwGetTime\<close> (line 593).\<close>

record world =
  should_close :: "nat \<Rightarrow> bool list"
  clock :: "nat \<Rightarrow> real"

text \<open>Lines 589 and 590: \<^verbatim>\<open>anyOpen\<close> after the scan of the windows.\<close>

definition any_open :: "bool list \<Rightarrow> int" where
  "any_open flags = fold (\<lambda>closed anyOpen. if \<not> closed then 1 else anyOpen) flags 0"

text \<open>Line 596: every shape is updated once, in order, from the one random generator.\<close>

fun update_all :: "ShapeRuntime list \<Rightarrow> real \<Rightarrow> rng \<Rightarrow> ShapeRuntime list \<times> rng" where
  "update_all [] dt g = ([], g)"
| "update_all (s # ss) dt g =
     (let (s', g1) = update_shape s dt g;
          (ss', g2) = update_all ss dt g1
      in (s' # ss', g2))"

text \<open>The state that one iteration hands to the next: the records, the generator, and
  \<^verbatim>\<open>last\<close>. Drawing reads the records and changes none of them. The colour of a shape in
  the frame is \<open>color_for s now\<close> (line 531).\<close>

record loop_state =
  runtime :: "ShapeRuntime list"
  gen :: rng
  last_time :: real

text \<open>Line 593: the time since the last iteration, converted to \<^verbatim>\<open>float\<close> and capped.\<close>

definition frame_dt :: "world \<Rightarrow> nat \<Rightarrow> loop_state \<Rightarrow> real" where
  "frame_dt W k st =
     (let now = clock W k;
          dt0 = to_float (now - last_time st)
      in if dt0 > 1 / 10 then 1 / 10 else dt0)"

definition frame :: "world \<Rightarrow> nat \<Rightarrow> loop_state \<Rightarrow> loop_state" where
  "frame W k st =
     (let now = clock W k;
          dt = frame_dt W k st;
          (rs, g) = update_all (runtime st) dt (gen st)
      in \<lparr>runtime = rs, gen = g, last_time = now\<rparr>)"


text \<open>The \<^verbatim>\<open>while(1)\<close> of line 587 from its \<open>k\<close>-th iteration on. The only exit is the
  \<^verbatim>\<open>break\<close> of line 591; the result is the number of the iteration that left and the
  state it left with, and \<open>None\<close> when the loop runs forever. (\<^verbatim>\<open>main\<close> calls
  \<^verbatim>\<open>app_loop\<close> with at least one window. The calls into GLFW and OpenGL and the busy
  wait of the frame cap are taken to return.)\<close>

partial_function (option) app_loop :: "world \<Rightarrow> nat \<Rightarrow> loop_state \<Rightarrow> (nat \<times> loop_state) option" where
  "app_loop W k st =
     (if any_open (should_close W k) = 0 then Some (k, st)
      else app_loop W (Suc k) (frame W k st))"

text \<open>The number \<open>N\<close> of a shape in its slot: how many shapes before the \<open>i\<close>-th of the
  configuration have its anchor on its (clamped) monitor.\<close>

definition same_slot :: "int \<Rightarrow> ShapeConfig \<Rightarrow> ShapeConfig \<Rightarrow> bool" where
  "same_slot monCount a b \<longleftrightarrow>
     clamp_mon monCount (screen b) = clamp_mon monCount (screen a) \<and> pos b = pos a"

definition earlier_same :: "int \<Rightarrow> ShapeConfig list \<Rightarrow> nat \<Rightarrow> int" where
  "earlier_same monCount cfgs i = int (length (filter (same_slot monCount (cfgs ! i)) (take i cfgs)))"

subsection \<open>Concrete inputs\<close>

text \<open>A generator whose \<open>n\<close>-th call returns \<open>n\<close>, and one that always returns 0.\<close>

definition rng_count :: rng where
  "rng_count = \<lparr>RAND_MAX = 32767, draws = (\<lambda>n. if n \<le> 32767 then int n else 0)\<rparr>"

definition rng_zero :: rng where
  "rng_zero = \<lparr>RAND_MAX = 32767, draws = (\<lambda>n. 0)\<rparr>"

text \<open>A spinning cube of colour RANDOM four seconds before its next reorientation, and
  the same cube one tick before a reorientation of two seconds completes.\<close>

definition ex_spinning :: ShapeRuntime where
  "ex_spinning = \<lparr>shape = SH_CUBE, color = COL_RANDOM, hue = 0, hueSpeed = 1 / 4,
     orient = q_ident, target = q_ident, spinY = 180, spinX = 15,
     reorientTimer = 4, reorientDur = 2, reorientT = 0, worldPos = v3 0 0 0, geom = make_cube\<rparr>"

definition ex_reorienting :: ShapeRuntime where
  "ex_reorienting = ex_spinning\<lparr>reorientTimer := - (31 / 16), reorientT := 31 / 32\<rparr>"

text \<open>Two windows: the first is asked to close during the first iteration, the second
  during the second. The clock advances by 1/16 s per iteration.\<close>

definition ex_world :: world where
  "ex_world = \<lparr>should_close = (\<lambda>k. if k = 0 then [False, False]
                                    else if k = 1 then [True, False] else [True, True]),
               clock = (\<lambda>k. real k / 16)\<rparr>"

definition ex_state :: loop_state where
  "ex_state = \<lparr>runtime = [ex_spinning], gen = rng_count, last_time = 0\<rparr>"

text \<open>Configuration files: a comment, an empty line and two malformed lines; a malformed
  line before a good one; and a single comment line of 533 bytes whose last 22 bytes
  read like a record.\<close>

definition ex_file_skipped :: string where
  "ex_file_skipped = ''# comment'' @ [CHR 0x0A] @ [CHR 0x0A] @ ''BAD=[RED]'' @ [CHR 0x0A]
     @ ''CUBE=[RED, MIDDLE, 0]'' @ [CHR 0x0A]"



subsection \<open>Auxiliary notions for the geometry proofs\<close>

definition buf_ok :: "geom_buf \<Rightarrow> bool" where
  "buf_ok buf \<longleftrightarrow> (vi_of buf < 2 ^ 32 \<longrightarrow> (\<forall>x\<in>set (snd buf). 0 \<le> x \<and> x < vi_of buf))"

definition ei_of :: "geom_buf \<Rightarrow> int" where
  "ei_of buf = int (length (snd buf))"

definition idx_ok :: "nat \<Rightarrow> nat \<Rightarrow> nat \<Rightarrow> vec3 list \<times> (nat \<Rightarrow> nat \<Rightarrow> int) \<Rightarrow> bool" where
  "idx_ok n i j st \<longleftrightarrow> length (fst st) = i * n + j
     \<and> (\<forall>i' j'. (i' < i \<and> j' < n) \<or> (i' = i \<and> j' < j) \<longrightarrow> snd st i' j' = int (i' * n + j'))"

definition edges_ok :: "int \<Rightarrow> int \<Rightarrow> int list \<Rightarrow> bool" where
  "edges_ok len bound e \<longleftrightarrow> int (length e) = len \<and> (\<forall>x\<in>set e. 0 \<le> x \<and> x < bound)"

section \<open>Geometry: counts and index bounds\<close>

lemma fold_upt_inv:
  assumes "a \<le> b" and "P a s"
    and "\<And>j s. a \<le> j \<Longrightarrow> j < b \<Longrightarrow> P j s \<Longrightarrow> P (Suc j) (f j s)"
  shows "P b (fold f [a..<b] s)"
  using assms
proof (induction b)
  case 0
  then show ?case by simp
next
  case (Suc b)
  show ?case
  proof (cases "a = Suc b")
    case True
    with Suc.prems show ?thesis by simp
  next
    case False
    with Suc.prems have ab: "a \<le> b" by simp
    have "P b (fold f [a..<b] s)"
      using Suc.IH [OF ab Suc.prems(2)] Suc.prems(3) by simp
    with ab Suc.prems(3) show ?thesis by simp
  qed
qed

lemma u32_id: "0 \<le> n \<Longrightarrow> n < 2 ^ 32 \<Longrightarrow> u32 n = n"
  by (simp add: u32_def)

lemma lat_ring_step_inv:
  assumes "vi_of buf = vi0 + int j" "ei_of buf = ei0 + 2 * int j - (if j = 0 then 0 else 2)" "buf_ok buf" "0 \<le> vi0"
  shows "vi_of (lat_ring_step r y (u32 vi0) seg j buf) = vi0 + int (Suc j)
       \<and> ei_of (lat_ring_step r y (u32 vi0) seg j buf) = ei0 + 2 * int (Suc j) - 2
       \<and> buf_ok (lat_ring_step r y (u32 vi0) seg j buf)"
  using assms
  by (auto simp: lat_ring_step_def vi_of_def ei_of_def buf_ok_def Let_def u32_id)

lemma lat_ring_inv:
  assumes ok: "buf_ok buf" and lon: "1 \<le> lon"
  shows "vi_of (lat_ring lat lon i buf) = vi_of buf + lon
       \<and> ei_of (lat_ring lat lon i buf) = ei_of buf + 2 * lon
       \<and> buf_ok (lat_ring lat lon i buf)"
proof -
  define vi0 where "vi0 = vi_of buf"
  define ei0 where "ei0 = ei_of buf"
  define r where "r = sin (pi * (real i / real_of_int lat))"
  define y where "y = cos (pi * (real i / real_of_int lat))"
  define P where "P = (\<lambda>j b. vi_of b = vi0 + int j
      \<and> ei_of b = ei0 + 2 * int j - (if j = 0 then 0 else 2) \<and> buf_ok b)"
  define buf' where "buf' = fold (lat_ring_step r y (u32 vi0) lon) [0..<nat lon] buf"
  have vi0: "0 \<le> vi0" by (simp add: vi0_def vi_of_def)
  have "P (nat lon) buf'"
    unfolding buf'_def
  proof (rule fold_upt_inv)
    show "P 0 buf" by (simp add: P_def vi0_def ei0_def ok)
  next
    fix j s assume "P j s"
    then show "P (Suc j) (lat_ring_step r y (u32 vi0) lon j s)"
      unfolding P_def using lat_ring_step_inv [of s vi0 j ei0 r y lon] vi0 by simp
  qed simp
  then have b': "vi_of buf' = vi0 + lon" "ei_of buf' = ei0 + 2 * lon - 2" "buf_ok buf'"
    using lon by (auto simp: P_def)
  have res: "lat_ring lat lon i buf = (fst buf', snd buf' @ [u32 (u32 vi0 + lon - 1), u32 vi0])"
    by (simp add: lat_ring_def Let_def buf'_def r_def y_def vi0_def)
  have "buf_ok (fst buf', snd buf' @ [u32 (u32 vi0 + lon - 1), u32 vi0])"
    using b' vi0 lon by (auto simp: buf_ok_def vi_of_def u32_id)
  with b' show ?thesis
    by (simp add: res vi_of_def ei_of_def vi0_def ei0_def)
qed

lemma lon_ring_step_inv:
  assumes "vi_of buf = vi0 + int k" "ei_of buf = ei0 + 2 * int k - (if k = 0 then 0 else 2)"
    "buf_ok buf" "0 \<le> vi0"
  shows "vi_of (lon_ring_step t segments k buf) = vi0 + int (Suc k)
       \<and> ei_of (lon_ring_step t segments k buf) = ei0 + 2 * int (Suc k) - 2
       \<and> buf_ok (lon_ring_step t segments k buf)"
  using assms
  by (auto simp: lon_ring_step_def vi_of_def ei_of_def buf_ok_def Let_def u32_id)

lemma extra_ring_step_inv:
  assumes "vi_of buf = vi0 + int k" "ei_of buf = ei0 + 2 * int k - (if k = 0 then 0 else 2)"
    "buf_ok buf" "0 \<le> vi0"
  shows "vi_of (extra_ring_step tilt seg k buf) = vi0 + int (Suc k)
       \<and> ei_of (extra_ring_step tilt seg k buf) = ei0 + 2 * int (Suc k) - 2
       \<and> buf_ok (extra_ring_step tilt seg k buf)"
  using assms
  by (auto simp: extra_ring_step_def vi_of_def ei_of_def buf_ok_def Let_def u32_id)

lemma lon_ring_inv:
  assumes ok: "buf_ok buf" and lat: "1 \<le> lat"
  shows "vi_of (lon_ring lat lon j buf) = vi_of buf + 2 * lat
       \<and> ei_of (lon_ring lat lon j buf) = ei_of buf + 2 * (2 * lat) - 2
       \<and> buf_ok (lon_ring lat lon j buf)"
proof -
  define vi0 where "vi0 = vi_of buf"
  define ei0 where "ei0 = ei_of buf"
  define t where "t = 2 * pi * (real j / real_of_int lon)"
  define P where "P = (\<lambda>k b. vi_of b = vi0 + int k
      \<and> ei_of b = ei0 + 2 * int k - (if k = 0 then 0 else 2) \<and> buf_ok b)"
  have vi0: "0 \<le> vi0" by (simp add: vi0_def vi_of_def)
  have "P (nat (lat * 2)) (fold (lon_ring_step t (lat * 2)) [0..<nat (lat * 2)] buf)"
  proof (rule fold_upt_inv)
    show "P 0 buf" by (simp add: P_def vi0_def ei0_def ok)
  next
    fix k s assume "P k s"
    then show "P (Suc k) (lon_ring_step t (lat * 2) k s)"
      unfolding P_def
      using lon_ring_step_inv [of s vi0 k ei0 t "lat * 2"] vi0 by simp
  qed simp
  then show ?thesis
    using lat by (auto simp: P_def lon_ring_def Let_def t_def vi0_def ei0_def)
qed

lemma extra_ring_inv:
  assumes ok: "buf_ok buf" and seg: "1 \<le> seg"
  shows "vi_of (extra_ring seg r buf) = vi_of buf + seg
       \<and> ei_of (extra_ring seg r buf) = ei_of buf + 2 * seg
       \<and> buf_ok (extra_ring seg r buf)"
proof -
  define vi0 where "vi0 = vi_of buf"
  define ei0 where "ei0 = ei_of buf"
  define tilt :: real where "tilt = (if r = 0 then 0 else if r = 1 then 35 / 100 else - (1 / 2))"
  define P where "P = (\<lambda>k b. vi_of b = vi0 + int k
      \<and> ei_of b = ei0 + 2 * int k - (if k = 0 then 0 else 2) \<and> buf_ok b)"
  define buf' where "buf' = fold (extra_ring_step tilt seg) [0..<nat seg] buf"
  have vi0: "0 \<le> vi0" by (simp add: vi0_def vi_of_def)
  have "P (nat seg) buf'"
    unfolding buf'_def
  proof (rule fold_upt_inv)
    show "P 0 buf" by (simp add: P_def vi0_def ei0_def ok)
  next
    fix k s assume "P k s"
    then show "P (Suc k) (extra_ring_step tilt seg k s)"
      unfolding P_def
      using extra_ring_step_inv [of s vi0 k ei0 tilt seg] vi0 by simp
  qed simp
  then have b': "vi_of buf' = vi0 + seg" "ei_of buf' = ei0 + 2 * seg - 2" "buf_ok buf'"
    using seg by (auto simp: P_def)
  have res: "extra_ring seg r buf = (fst buf', snd buf' @ [u32 (vi_of buf' - 1), u32 vi0])"
    by (simp add: extra_ring_def Let_def buf'_def tilt_def vi0_def)
  have "buf_ok (fst buf', snd buf' @ [u32 (vi_of buf' - 1), u32 vi0])"
    using b' vi0 seg by (auto simp: buf_ok_def vi_of_def u32_id)
  with b' show ?thesis
    by (simp add: res vi_of_def ei_of_def vi0_def ei0_def)
qed

lemma sphere_buf_inv:
  assumes lat: "1 \<le> lat" and lon: "1 \<le> lon"
  shows "vi_of (sphere_buf lat lon) = (lat - 1) * lon + lon * (2 * lat) + 3 * (lon * 2)
       \<and> ei_of (sphere_buf lat lon) = (lat - 1) * (2 * lon) + lon * (2 * (2 * lat) - 2) + 3 * (2 * (lon * 2))
       \<and> buf_ok (sphere_buf lat lon)"
proof -
  define b1 where "b1 = fold (lat_ring lat lon) [1..<nat lat] ([], [])"
  define b2 where "b2 = fold (lon_ring lat lon) [0..<nat lon] b1"
  define b3 where "b3 = fold (extra_ring (lon * 2)) [0..<nat 3] b2"
  define P1 where "P1 = (\<lambda>i b. vi_of b = (int i - 1) * lon \<and> ei_of b = (int i - 1) * (2 * lon) \<and> buf_ok b)"
  have "P1 (nat lat) b1"
    unfolding b1_def
  proof (rule fold_upt_inv)
    show "P1 1 ([], [])" by (simp add: P1_def vi_of_def ei_of_def buf_ok_def)
  next
    fix i s assume "P1 i s"
    then show "P1 (Suc i) (lat_ring lat lon i s)"
      unfolding P1_def using lat_ring_inv [of s lon lat i] lon by (simp add: algebra_simps)
  qed (use lat in simp)
  then have b1: "vi_of b1 = (lat - 1) * lon" "ei_of b1 = (lat - 1) * (2 * lon)" "buf_ok b1"
    using lat by (auto simp: P1_def)
  define P2 where "P2 = (\<lambda>j b. vi_of b = vi_of b1 + int j * (2 * lat)
     \<and> ei_of b = ei_of b1 + int j * (2 * (2 * lat) - 2) \<and> buf_ok b)"
  have "P2 (nat lon) b2"
    unfolding b2_def
  proof (rule fold_upt_inv)
    show "P2 0 b1" by (simp add: P2_def b1)
  next
    fix j s assume "P2 j s"
    then show "P2 (Suc j) (lon_ring lat lon j s)"
      unfolding P2_def using lon_ring_inv [of s lat lon j] lat by (simp add: algebra_simps)
  qed simp
  then have b2: "vi_of b2 = vi_of b1 + lon * (2 * lat)"
    "ei_of b2 = ei_of b1 + lon * (2 * (2 * lat) - 2)" "buf_ok b2"
    using lon by (auto simp: P2_def)
  define P3 where "P3 = (\<lambda>k b. vi_of b = vi_of b2 + int k * (lon * 2)
     \<and> ei_of b = ei_of b2 + int k * (2 * (lon * 2)) \<and> buf_ok b)"
  have "P3 (nat 3) b3"
    unfolding b3_def
  proof (rule fold_upt_inv)
    show "P3 0 b2" by (simp add: P3_def b2)
  next
    fix k s assume "P3 k s"
    then show "P3 (Suc k) (extra_ring (lon * 2) k s)"
      unfolding P3_def using extra_ring_inv [of s "lon * 2" k] lon by (simp add: algebra_simps)
  qed simp
  then have b3: "vi_of b3 = vi_of b2 + 3 * (lon * 2)"
    "ei_of b3 = ei_of b2 + 3 * (2 * (lon * 2))" "buf_ok b3"
    by (auto simp: P3_def)
  have "sphere_buf lat lon = b3"
    by (simp add: sphere_buf_def Let_def b1_def b2_def b3_def)
  with b1 b2 b3 show ?thesis by simp
qed

lemma sphere_10_16:
  "\<exists>g. make_sphere 10 16 = Some g \<and> vcount g = 560 \<and> lcount g = 544
      \<and> vcount g = int (length (verts g)) \<and> 2 * lcount g = int (length (lines g))
      \<and> (\<forall>x\<in>set (lines g). 0 \<le> x \<and> x < vcount g)"
  using sphere_buf_inv [of 10 16]
  by (auto simp: make_sphere_def Let_def vi_of_def ei_of_def buf_ok_def)

lemma torus_vert_step_inv:
  assumes "idx_ok n i j st" "j < n"
  shows "idx_ok n i (Suc j) (torus_vert_step R r minorSeg i ca sa j st)"
  using assms
  by (auto simp: idx_ok_def torus_vert_step_def Let_def less_Suc_eq)

lemma torus_vert_row_inv:
  assumes "idx_ok (nat minorSeg) i 0 st"
  shows "idx_ok (nat minorSeg) (Suc i) 0 (torus_vert_row R r majorSeg minorSeg i st)"
proof -
  define n where "n = nat minorSeg"
  define ca where "ca = cos (2 * pi * real i / real_of_int majorSeg)"
  define sa where "sa = sin (2 * pi * real i / real_of_int majorSeg)"
  have "idx_ok n i n (fold (torus_vert_step R r minorSeg i ca sa) [0..<n] st)"
  proof (rule fold_upt_inv [where P = "idx_ok n i"])
    show "idx_ok n i 0 st" using assms by (simp add: n_def)
  next
    fix j s assume "j < n" "idx_ok n i j s"
    then show "idx_ok n i (Suc j) (torus_vert_step R r minorSeg i ca sa j s)"
      by (rule torus_vert_step_inv [rotated])
  qed simp
  then have "idx_ok n (Suc i) 0 (fold (torus_vert_step R r minorSeg i ca sa) [0..<n] st)"
    by (auto simp: idx_ok_def less_Suc_eq)
  then show ?thesis
    by (simp add: torus_vert_row_def Let_def n_def ca_def sa_def)
qed

lemma torus_verts_inv:
  "idx_ok (nat minorSeg) (nat majorSeg) 0
     (fold (torus_vert_row R r majorSeg minorSeg) [0..<nat majorSeg] ([], \<lambda>i j. 0))"
proof (rule fold_upt_inv [where P = "\<lambda>i. idx_ok (nat minorSeg) i 0"])
  show "idx_ok (nat minorSeg) 0 0 ([], \<lambda>i j. 0)" by (simp add: idx_ok_def)
next
  fix i s assume "idx_ok (nat minorSeg) i 0 s"
  then show "idx_ok (nat minorSeg) (Suc i) 0 (torus_vert_row R r majorSeg minorSeg i s)"
    by (rule torus_vert_row_inv)
qed simp

lemma c_rem_pos: "0 \<le> a \<Longrightarrow> 0 < b \<Longrightarrow> c_rem a b = a mod b"
  by (simp add: c_rem_def sgn_if)

lemma idx_cell:
  assumes "\<forall>i' j'. i' < m \<and> j' < n \<longrightarrow> idx i' j' = int (i' * n + j')" "i < m" "j < n"
    "int m * int n < 2 ^ 32"
  shows "0 \<le> u32 (idx i j) \<and> u32 (idx i j) < int m * int n"
proof -
  have "i * n + j < m * n"
  proof -
    have "i * n + j < i * n + n" using assms(3) by simp
    also have "\<dots> = Suc i * n" by simp
    also have "\<dots> \<le> m * n" using assms(2) by (intro mult_le_mono1) simp
    finally show ?thesis .
  qed
  then have lt: "int (i * n + j) < int m * int n"
    by (metis of_nat_less_iff of_nat_mult)
  have "idx i j = int (i * n + j)" using assms by simp
  moreover have "u32 (int (i * n + j)) = int (i * n + j)"
    using lt assms(4) by (intro u32_id) auto
  ultimately show ?thesis using lt by simp
qed

lemma torus_edge_step_inv:
  assumes idx: "\<forall>i' j'. i' < m \<and> j' < n \<longrightarrow> idx i' j' = int (i' * n + j')"
    and i: "i < m" and j: "j < n" and bnd: "int m * int n < 2 ^ 32"
    and M: "majorSeg = int m" and N: "minorSeg = int n"
    and e: "edges_ok len (int m * int n) e"
  shows "edges_ok (len + 4) (int m * int n) (torus_edge_step idx majorSeg minorSeg i j e)"
proof -
  have m: "0 < m" and n: "0 < n" using i j by auto
  have i2: "nat (c_rem (int i + 1) majorSeg) < m"
    using m M by (simp add: c_rem_pos nat_less_iff)
  have j2: "nat (c_rem (int j + 1) minorSeg) < n"
    using n N by (simp add: c_rem_pos nat_less_iff)
  show ?thesis
    using e idx_cell [OF idx i j bnd] idx_cell [OF idx i2 j bnd] idx_cell [OF idx i j2 bnd]
    by (simp add: edges_ok_def torus_edge_step_def Let_def)
qed

lemma torus_edge_row_inv:
  assumes idx: "\<forall>i' j'. i' < m \<and> j' < n \<longrightarrow> idx i' j' = int (i' * n + j')"
    and i: "i < m" and bnd: "int m * int n < 2 ^ 32"
    and M: "majorSeg = int m" and N: "minorSeg = int n"
    and e: "edges_ok len (int m * int n) e"
  shows "edges_ok (len + 4 * int n) (int m * int n) (torus_edge_row idx majorSeg minorSeg i e)"
proof -
  have "edges_ok (len + 4 * int n) (int m * int n)
          (fold (torus_edge_step idx majorSeg minorSeg i) [0..<n] e)"
  proof (rule fold_upt_inv [where P = "\<lambda>j. edges_ok (len + 4 * int j) (int m * int n)"])
    show "edges_ok (len + 4 * int 0) (int m * int n) e" using e by simp
  next
    fix j s assume "j < n" "edges_ok (len + 4 * int j) (int m * int n) s"
    then show "edges_ok (len + 4 * int (Suc j)) (int m * int n)
                 (torus_edge_step idx majorSeg minorSeg i j s)"
      using torus_edge_step_inv [OF idx i _ bnd M N, of j "len + 4 * int j" s]
      by (simp add: algebra_simps)
  qed simp
  then show ?thesis by (simp add: torus_edge_row_def N)
qed

lemma torus_edges_inv:
  assumes idx: "\<forall>i' j'. i' < m \<and> j' < n \<longrightarrow> idx i' j' = int (i' * n + j')"
    and bnd: "int m * int n < 2 ^ 32" and M: "majorSeg = int m" and N: "minorSeg = int n"
  shows "edges_ok (4 * (int m * int n)) (int m * int n) (torus_edges idx majorSeg minorSeg)"
proof -
  have "edges_ok (4 * int n * int m) (int m * int n)
          (fold (torus_edge_row idx majorSeg minorSeg) [0..<m] [])"
  proof (rule fold_upt_inv [where P = "\<lambda>i. edges_ok (4 * int n * int i) (int m * int n)"])
    show "edges_ok (4 * int n * int 0) (int m * int n) []" by (simp add: edges_ok_def)
  next
    fix i s assume "i < m" "edges_ok (4 * int n * int i) (int m * int n) s"
    then show "edges_ok (4 * int n * int (Suc i)) (int m * int n)
                 (torus_edge_row idx majorSeg minorSeg i s)"
      using torus_edge_row_inv [OF idx _ bnd M N, of i "4 * int n * int i" s]
      by (simp add: algebra_simps)
  qed simp
  then show ?thesis by (simp add: algebra_simps torus_edges_def M)
qed

lemma make_torus_inv:
  assumes M: "1 \<le> majorSeg" "majorSeg \<le> 128" and N: "1 \<le> minorSeg" "minorSeg \<le> 128"
  shows "\<exists>g. make_torus majorSeg minorSeg R r = Some g
      \<and> vcount g = majorSeg * minorSeg \<and> lcount g = 2 * (majorSeg * minorSeg)
      \<and> vcount g = int (length (verts g)) \<and> 2 * lcount g = int (length (lines g))
      \<and> (\<forall>x\<in>set (lines g). 0 \<le> x \<and> x < vcount g)"
proof -
  define m where "m = nat majorSeg"
  define n where "n = nat minorSeg"
  define st where "st = torus_verts R r majorSeg minorSeg"
  define e where "e = torus_edges (snd st) majorSeg minorSeg"
  have mn: "majorSeg = int m" "minorSeg = int n" using M N by (simp_all add: m_def n_def)
  have "idx_ok n m 0 st"
    using torus_verts_inv [of minorSeg majorSeg R r] by (simp add: st_def torus_verts_def m_def n_def)
  then have len: "length (fst st) = m * n"
    and idx: "\<forall>i' j'. i' < m \<and> j' < n \<longrightarrow> snd st i' j' = int (i' * n + j')"
    by (auto simp: idx_ok_def)
  have "int m * int n \<le> 128 * 128"
    using M N mn by (intro mult_mono) auto
  then have bnd: "int m * int n < 2 ^ 32" by simp
  have "edges_ok (4 * (int m * int n)) (int m * int n) e"
    unfolding e_def using torus_edges_inv [OF idx bnd mn] .
  then have e: "int (length e) = 4 * (int m * int n)" "\<forall>x\<in>set e. 0 \<le> x \<and> x < int m * int n"
    by (auto simp: edges_ok_def)
  have len': "int (length (fst st)) = int m * int n" using len by simp
  show ?thesis
    using M N len' e
    by (simp add: make_torus_def Let_def st_def [symmetric] e_def [symmetric] mn [symmetric])
qed

lemma static_geoms:
  "0 < lcount make_cube \<and> 2 * lcount make_cube = int (length (lines make_cube))
     \<and> vcount make_cube = int (length (verts make_cube))
     \<and> (\<forall>x\<in>set (lines make_cube). 0 \<le> x \<and> x < vcount make_cube)"
  "0 < lcount make_pyramid \<and> 2 * lcount make_pyramid = int (length (lines make_pyramid))
     \<and> vcount make_pyramid = int (length (verts make_pyramid))
     \<and> (\<forall>x\<in>set (lines make_pyramid). 0 \<le> x \<and> x < vcount make_pyramid)"
  "0 < lcount make_octahedron \<and> 2 * lcount make_octahedron = int (length (lines make_octahedron))
     \<and> vcount make_octahedron = int (length (verts make_octahedron))
     \<and> (\<forall>x\<in>set (lines make_octahedron). 0 \<le> x \<and> x < vcount make_octahedron)"
  by (simp_all add: make_cube_def cube_v_def cube_e_def make_pyramid_def pyramid_v_def
      pyramid_e_def make_octahedron_def octahedron_v_def octahedron_e_def)

text \<open>Claim C4. For each of the five shape kinds, the geometry that \<^verbatim>\<open>main\<close> generates
  (the sphere with 10 and 16 segments, the torus with 32 and 12 segments and radii 1 and
  0.35) exists, has an edge count greater than 0, holds two indices per edge and one
  vertex per count, and every edge endpoint index is at least 0 and less than the vertex
  count.\<close>

theorem startup_geom_edges_in_range:
  "\<exists>g. startup_geom k = Some g \<and> 0 < lcount g
      \<and> 2 * lcount g = int (length (lines g)) \<and> vcount g = int (length (verts g))
      \<and> (\<forall>x\<in>set (lines g). 0 \<le> x \<and> x < vcount g)"
proof (cases k)
  case SH_CUBE
  then show ?thesis using static_geoms(1) by auto
next
  case SH_SPHERE
  then show ?thesis using sphere_10_16 by auto
next
  case SH_PYRAMID
  then show ?thesis using static_geoms(2) by auto
next
  case SH_TORUS
  then show ?thesis using make_torus_inv [of 32 12 1 "35 / 100"] by auto
next
  case SH_OCT
  then show ?thesis using static_geoms(3) by auto
qed

text \<open>The cube at startup: twelve edges on eight vertices, the last index 7.\<close>

theorem startup_geom_edges_in_range_witness:
  "startup_geom SH_CUBE = Some make_cube \<and> lcount make_cube = 12 \<and> vcount make_cube = 8
   \<and> 7 \<in> set (lines make_cube) \<and> (7::int) < vcount make_cube"
  using startup_geom_edges_in_range [of SH_CUBE]
  by (simp add: make_cube_def cube_v_def cube_e_def)

section \<open>Quaternions\<close>

lemma q_len_unit_sq: "q_len q = 1 \<Longrightarrow> qx q * qx q + qy q * qy q + qz q * qz q + qw q * qw q = 1"
  by (simp add: q_len_def)

lemma q_norm_unit: "q_len q = 1 \<Longrightarrow> q_norm q = q"
  by (cases q) (simp add: q_norm_def)

lemma q_len_nonneg: "0 \<le> q_len q"
  by (simp add: q_len_def)

lemma q_len_q_norm: "q_len (q_norm q) = 1"
proof (cases "q_len q < 1 / 10 ^ 8")
  case True
  then show ?thesis by (simp add: q_norm_def q_ident_def q_len_def)
next
  case False
  define l where "l = q_len q"
  have l: "0 < l" using False by (simp add: l_def)
  have sq: "qx q * qx q + qy q * qy q + qz q * qz q + qw q * qw q = l * l"
  proof -
    have "0 \<le> qx q * qx q + qy q * qy q + qz q * qz q + qw q * qw q" by simp
    then show ?thesis by (simp add: l_def q_len_def)
  qed
  have "q_norm q = Quat (qx q * (1 / l)) (qy q * (1 / l)) (qz q * (1 / l)) (qw q * (1 / l))"
    using False by (simp add: q_norm_def Let_def l_def)
  moreover have "qx q * (1 / l) * (qx q * (1 / l)) + qy q * (1 / l) * (qy q * (1 / l))
      + qz q * (1 / l) * (qz q * (1 / l)) + qw q * (1 / l) * (qw q * (1 / l))
      = (qx q * qx q + qy q * qy q + qz q * qz q + qw q * qw q) / (l * l)"
    by (simp add: add_divide_distrib)
  ultimately show ?thesis using l by (simp add: q_len_def sq)
qed

lemma slerp_same_unit:
  assumes "q_len a = 1"
  shows "q_slerp a a t = a"
proof -
  have "q_dot a a = 1" using q_len_unit_sq [OF assms] by (simp add: q_dot_def)
  then show ?thesis
    using assms by (cases a) (simp add: q_slerp_def q_norm_unit Let_def)
qed

text \<open>Claim C7. Interpolating from a quaternion to itself returns the normalised
  quaternion for every \<open>t\<close>, in particular for \<open>t\<close> in \<open>[0, 1]\<close>; for a unit quaternion
  that is the quaternion itself.\<close>

theorem q_slerp_same:
  "q_slerp q q t = q_norm q \<and> (q_len q = 1 \<longrightarrow> q_slerp q q t = q)"
proof -
  have n: "q_norm (q_norm q) = q_norm q" by (simp add: q_norm_unit q_len_q_norm)
  have "q_slerp q q t = q_slerp (q_norm q) (q_norm q) t"
    by (simp add: q_slerp_def n)
  also have "\<dots> = q_norm q" by (rule slerp_same_unit) (rule q_len_q_norm)
  finally show ?thesis by (auto simp: q_norm_unit)
qed

text \<open>The unit quaternion \<open>(0, 1, 0, 0)\<close> at \<open>t = 1/2\<close>.\<close>

theorem q_slerp_same_witness:
  "q_len (Quat 0 1 0 0) = 1 \<and> q_slerp (Quat 0 1 0 0) (Quat 0 1 0 0) (1 / 2) = Quat 0 1 0 0"
  using q_slerp_same [of "Quat 0 1 0 0" "1 / 2"] by (simp add: q_len_def q_norm_def)

section \<open>The per-frame update of a shape\<close>

lemma tracked_spinning:
  assumes "\<not> reorienting s dt"
  shows "update_shape_tracked s dt g =
    ((s\<lparr>hue := fmodf (hue s + hueSpeed s * dt) 1, reorientTimer := reorientTimer s - dt,
        orient := q_mul (spin_delta s 1 dt) (orient s)\<rparr>,
      [F_hue, F_reorientTimer, F_orient]), g)"
  using assms
  by (simp add: update_shape_tracked_def assign_def reorienting_def spin_delta_def Let_def)

lemma tracked_slerp:
  assumes "reorienting s dt" "\<not> completes s dt"
  shows "update_shape_tracked s dt g =
    (let tg = (if reorientT s = 0 then fst (new_target g) else target s);
         g' = (if reorientT s = 0 then snd (new_target g) else g);
         T = reorientT s + dt / reorientDur s
     in ((s\<lparr>hue := fmodf (hue s + hueSpeed s * dt) 1, reorientTimer := reorientTimer s - dt,
            target := tg, reorientT := T,
            orient := q_mul (spin_delta s (1 / 2) dt) (q_slerp (orient s) tg T)\<rparr>,
          [F_hue, F_reorientTimer] @ (if reorientT s = 0 then [F_target] else [])
            @ [F_reorientT, F_orient, F_orient]), g'))"
  using assms
  by (simp add: update_shape_tracked_def reorient_body_def assign_def reorienting_def
      completes_def spin_delta_def Let_def case_prod_beta)

lemma tracked_complete:
  assumes "completes s dt"
  shows "update_shape_tracked s dt g =
    (let tg = (if reorientT s = 0 then fst (new_target g) else target s);
         g1 = (if reorientT s = 0 then snd (new_target g) else g)
     in ((s\<lparr>hue := fmodf (hue s + hueSpeed s * dt) 1,
            reorientTimer := fst (frand_range 4 8 g1),
            target := tg, reorientT := 0,
            orient := q_mul (spin_delta s 1 dt) tg\<rparr>,
          [F_hue, F_reorientTimer] @ (if reorientT s = 0 then [F_target] else [])
            @ [F_reorientT, F_orient, F_reorientT, F_reorientTimer, F_orient]),
         snd (frand_range 4 8 g1)))"
  using assms
  by (simp add: update_shape_tracked_def reorient_body_def assign_def reorienting_def
      completes_def spin_delta_def Let_def case_prod_beta)

lemma update_shape_writes_cases:
  "update_shape_writes s dt g =
     (if completes s dt
      then [F_hue, F_reorientTimer] @ (if reorientT s = 0 then [F_target] else [])
             @ [F_reorientT, F_orient, F_reorientT, F_reorientTimer, F_orient]
      else if reorienting s dt
      then [F_hue, F_reorientTimer] @ (if reorientT s = 0 then [F_target] else [])
             @ [F_reorientT, F_orient, F_orient]
      else [F_hue, F_reorientTimer, F_orient])"
proof -
  consider "completes s dt" | "reorienting s dt" "\<not> completes s dt" | "\<not> reorienting s dt"
    by blast
  then show ?thesis
  proof cases
    case 1
    then show ?thesis by (simp add: update_shape_writes_def tracked_complete Let_def)
  next
    case 2
    then show ?thesis by (simp add: update_shape_writes_def tracked_slerp Let_def)
  next
    case 3
    then have "\<not> completes s dt" by (simp add: completes_def)
    with 3 show ?thesis by (simp add: update_shape_writes_def tracked_spinning)
  qed
qed

lemma update_shape_frame:
  "hueSpeed (fst (update_shape s dt g)) = hueSpeed s
   \<and> spinY (fst (update_shape s dt g)) = spinY s
   \<and> spinX (fst (update_shape s dt g)) = spinX s
   \<and> reorientDur (fst (update_shape s dt g)) = reorientDur s
   \<and> worldPos (fst (update_shape s dt g)) = worldPos s
   \<and> geom (fst (update_shape s dt g)) = geom s
   \<and> shape (fst (update_shape s dt g)) = shape s
   \<and> color (fst (update_shape s dt g)) = color s"
proof -
  consider "completes s dt" | "reorienting s dt" "\<not> completes s dt" | "\<not> reorienting s dt"
    by blast
  then show ?thesis
  proof cases
    case 1
    then show ?thesis by (simp add: update_shape_def tracked_complete Let_def)
  next
    case 2
    then show ?thesis by (simp add: update_shape_def tracked_slerp Let_def)
  next
    case 3
    then show ?thesis by (simp add: update_shape_def tracked_spinning)
  qed
qed

text \<open>Claim C2, amended. One call of \<^verbatim>\<open>update_shape\<close> assigns \<open>hue\<close> exactly once;
  \<open>reorientTimer\<close> once, and a second time on the tick that completes a reorientation;
  \<open>orient\<close> once while the shape only spins and twice on a tick of a reorientation;
  \<open>target\<close> only on the tick that starts a reorientation; \<open>reorientT\<close> only during a
  reorientation, twice on the completing tick. It never assigns \<open>hueSpeed\<close>, \<open>spinY\<close>,
  \<open>spinX\<close>, \<open>reorientDur\<close>, \<open>worldPos\<close>, \<open>geom\<close>, \<open>shape\<close> or \<open>color\<close>, and these
  keep their values.\<close>

theorem update_shape_field_writes:
  "count_list (update_shape_writes s dt g) F_hue = 1
   \<and> count_list (update_shape_writes s dt g) F_reorientTimer = (if completes s dt then 2 else 1)
   \<and> count_list (update_shape_writes s dt g) F_orient = (if reorienting s dt then 2 else 1)
   \<and> count_list (update_shape_writes s dt g) F_target
       = (if reorienting s dt \<and> reorientT s = 0 then 1 else 0)
   \<and> count_list (update_shape_writes s dt g) F_reorientT
       = (if completes s dt then 2 else if reorienting s dt then 1 else 0)
   \<and> count_list (update_shape_writes s dt g) F_hueSpeed = 0
   \<and> count_list (update_shape_writes s dt g) F_spinY = 0
   \<and> count_list (update_shape_writes s dt g) F_spinX = 0
   \<and> count_list (update_shape_writes s dt g) F_reorientDur = 0
   \<and> count_list (update_shape_writes s dt g) F_worldPos = 0
   \<and> count_list (update_shape_writes s dt g) F_geom = 0
   \<and> count_list (update_shape_writes s dt g) F_shape = 0
   \<and> count_list (update_shape_writes s dt g) F_color = 0
   \<and> hueSpeed (fst (update_shape s dt g)) = hueSpeed s
   \<and> spinY (fst (update_shape s dt g)) = spinY s
   \<and> spinX (fst (update_shape s dt g)) = spinX s
   \<and> reorientDur (fst (update_shape s dt g)) = reorientDur s
   \<and> worldPos (fst (update_shape s dt g)) = worldPos s
   \<and> geom (fst (update_shape s dt g)) = geom s
   \<and> shape (fst (update_shape s dt g)) = shape s
   \<and> color (fst (update_shape s dt g)) = color s"
proof -
  have c: "completes s dt \<Longrightarrow> reorienting s dt" by (simp add: completes_def)
  show ?thesis
    using update_shape_frame [of s dt g] c
    by (simp add: update_shape_writes_cases)
qed

lemma completes_ex: "completes ex_reorienting (1 / 16)"
  by (simp add: completes_def reorienting_def ex_reorienting_def ex_spinning_def)

lemma not_reorienting_ex: "\<not> reorienting ex_spinning (1 / 16)"
  by (simp add: reorienting_def ex_spinning_def)

text \<open>Claim C2 as stated fails: on a tick of the spinning cube neither \<open>hueSpeed\<close> nor
  \<open>worldPos\<close> is assigned at all, and on the completing tick of the reorienting cube
  \<open>orient\<close> is assigned twice.\<close>

theorem update_shape_field_writes_counterexample:
  "count_list (update_shape_writes ex_spinning (1 / 16) rng_count) F_hueSpeed = 0
   \<and> count_list (update_shape_writes ex_spinning (1 / 16) rng_count) F_worldPos = 0
   \<and> count_list (update_shape_writes ex_reorienting (1 / 16) rng_count) F_orient = 2"
  using completes_ex not_reorienting_ex
  by (simp add: update_shape_writes_cases completes_def ex_reorienting_def ex_spinning_def)

lemma rand_ok:
  assumes "rng_ok g"
  shows "0 \<le> fst (rand g) \<and> fst (rand g) \<le> RAND_MAX g \<and> rng_ok (snd (rand g))
         \<and> RAND_MAX (snd (rand g)) = RAND_MAX g"
  using assms by (simp add: rand_def rng_ok_def)

lemma frand01_ok:
  assumes "rng_ok g"
  shows "0 \<le> fst (frand01 g) \<and> fst (frand01 g) \<le> 1 \<and> rng_ok (snd (frand01 g))"
proof -
  have m: "0 < RAND_MAX g" using assms by (simp add: rng_ok_def)
  have "fst (frand01 g) = real_of_int (fst (rand g)) / real_of_int (RAND_MAX g)"
    and "snd (frand01 g) = snd (rand g)"
    by (simp_all add: frand01_def case_prod_beta)
  then show ?thesis using rand_ok [OF assms] m by simp
qed

lemma frand_range_ok:
  assumes "rng_ok g" "a \<le> b"
  shows "a \<le> fst (frand_range a b g) \<and> fst (frand_range a b g) \<le> b
         \<and> rng_ok (snd (frand_range a b g))"
proof -
  define f where "f = fst (frand01 g)"
  have f: "0 \<le> f" "f \<le> 1" using frand01_ok [OF assms(1)] by (simp_all add: f_def)
  have v: "fst (frand_range a b g) = a + (b - a) * f" "snd (frand_range a b g) = snd (frand01 g)"
    by (simp_all add: frand_range_def case_prod_beta f_def)
  have "0 \<le> (b - a) * f" using f assms(2) by simp
  moreover have "(b - a) * f \<le> (b - a) * 1"
    using f assms(2) by (intro mult_left_mono) simp_all
  ultimately show ?thesis using frand01_ok [OF assms(1)] v by simp
qed

lemma new_target_ok:
  assumes "rng_ok g"
  shows "rng_ok (snd (new_target g))"
proof -
  have 1: "rng_ok (snd (frand_range (- (3 / 2)) (3 / 2) g))"
    using frand_range_ok [OF assms, of "- (3 / 2)" "3 / 2"] by simp
  have 2: "rng_ok (snd (frand_range (- (3 / 2)) (3 / 2) (snd (frand_range (- (3 / 2)) (3 / 2) g))))"
    using frand_range_ok [OF 1, of "- (3 / 2)" "3 / 2"] by simp
  show ?thesis
    using frand_range_ok [OF 2, of "- (3 / 2)" "3 / 2"]
    by (simp add: new_target_def case_prod_beta)
qed

text \<open>Claim C1, amended. On the tick on which the advanced progress reaches 1 (with a
  duration other than 0 and a generator within the bounds of \<^verbatim>\<open>rand\<close>), the update sets
  the orientation to the target and then turns it by the spin of the tick at full rate,
  resets \<open>reorientT\<close> to 0, and draws \<open>reorientTimer\<close> anew as
  \<open>4 + 4 * rand() / RAND_MAX\<close>, a value in \<open>[4, 8]\<close>. That is the only draw after the
  target's, and \<open>reorientDur\<close> keeps its value.\<close>

theorem update_shape_completion:
  assumes "completes s dt" and "reorientDur s \<noteq> 0" and "rng_ok g"
  shows "target (fst (update_shape s dt g))
           = (if reorientT s = 0 then fst (new_target g) else target s)
       \<and> orient (fst (update_shape s dt g))
           = q_mul (spin_delta s 1 dt) (target (fst (update_shape s dt g)))
       \<and> reorientT (fst (update_shape s dt g)) = 0
       \<and> reorientTimer (fst (update_shape s dt g))
           = fst (frand_range 4 8 (if reorientT s = 0 then snd (new_target g) else g))
       \<and> 4 \<le> reorientTimer (fst (update_shape s dt g))
       \<and> reorientTimer (fst (update_shape s dt g)) \<le> 8
       \<and> reorientDur (fst (update_shape s dt g)) = reorientDur s
       \<and> snd (update_shape s dt g)
           = snd (frand_range 4 8 (if reorientT s = 0 then snd (new_target g) else g))"
proof -
  define g1 where "g1 = (if reorientT s = 0 then snd (new_target g) else g)"
  have "rng_ok g1" using assms(3) new_target_ok by (simp add: g1_def)
  then have "4 \<le> fst (frand_range 4 8 g1) \<and> fst (frand_range 4 8 g1) \<le> 8"
    using frand_range_ok [of g1 4 8] by simp
  then show ?thesis
    using assms(1) by (simp add: update_shape_def tracked_complete Let_def g1_def)
qed

lemma rng_count_ok: "rng_ok rng_count"
  by (simp add: rng_ok_def rng_count_def)

text \<open>The reorienting cube completes on a tick of 1/16 s.\<close>

theorem update_shape_completion_witness:
  "completes ex_reorienting (1 / 16) \<and> reorientDur ex_reorienting \<noteq> 0 \<and> rng_ok rng_count
   \<and> target (fst (update_shape ex_reorienting (1 / 16) rng_count)) = q_ident
   \<and> reorientT (fst (update_shape ex_reorienting (1 / 16) rng_count)) = 0
   \<and> reorientTimer (fst (update_shape ex_reorienting (1 / 16) rng_count)) = 4
   \<and> reorientDur (fst (update_shape ex_reorienting (1 / 16) rng_count)) = 2"
proof -
  have d: "reorientDur ex_reorienting \<noteq> 0" by (simp add: ex_reorienting_def ex_spinning_def)
  have t: "fst (frand_range 4 8 rng_count) = 4"
    by (simp add: frand_range_def frand01_def rand_def rng_count_def)
  show ?thesis
    using update_shape_completion [OF completes_ex d rng_count_ok] completes_ex d rng_count_ok t
    by (simp add: ex_reorienting_def ex_spinning_def)
qed

lemma spin_ex:
  "spin_delta ex_reorienting 1 (1 / 16)
     = Quat (cos (pi / 32) * sin (pi / 384)) (sin (pi / 32) * cos (pi / 384))
            (- (sin (pi / 32) * sin (pi / 384))) (cos (pi / 32) * cos (pi / 384))"
  by (simp add: spin_delta_def ex_reorienting_def ex_spinning_def q_from_axis_angle_def
      v3_norm_def v3_len_def v3_dot_def v3_scale_def q_mul_def Let_def)

lemma spin_ex_qy: "0 < sin (pi / 32) * cos (pi / 384)"
proof -
  have "0 < sin (pi / 32)" by (intro sin_gt_zero) (simp_all add: pi_gt_zero)
  moreover have "0 < cos (pi / 384)"
  proof (intro cos_gt_zero_pi)
    have "0 < pi" by (rule pi_gt_zero)
    then show "- (pi / 2) < pi / 384" "pi / 384 < pi / 2" by simp_all
  qed
  ultimately show ?thesis by simp
qed

text \<open>Claim C1 as stated fails on the completing tick of the reorienting cube: the duration
  is 2 after the tick as before, while a draw from \<open>[1.5, 2.5]\<close> with the next random
  number would have given \<open>1.5 + 1/32767\<close>; and the orientation the tick leaves is not the
  target, since the spin of the tick is applied to it.\<close>

theorem update_shape_completion_counterexample:
  "completes ex_reorienting (1 / 16)
   \<and> reorientDur (fst (update_shape ex_reorienting (1 / 16) rng_count)) = 2
   \<and> fst (frand_range (3 / 2) (5 / 2) (snd (update_shape ex_reorienting (1 / 16) rng_count)))
       = 3 / 2 + 1 / 32767
   \<and> orient (fst (update_shape ex_reorienting (1 / 16) rng_count))
       \<noteq> target (fst (update_shape ex_reorienting (1 / 16) rng_count))"
proof -
  have T: "reorientT ex_reorienting \<noteq> 0" by (simp add: ex_reorienting_def ex_spinning_def)
  have tg: "target ex_reorienting = q_ident" by (simp add: ex_reorienting_def ex_spinning_def)
  have du: "reorientDur ex_reorienting = 2" by (simp add: ex_reorienting_def ex_spinning_def)
  have g': "snd (update_shape ex_reorienting (1 / 16) rng_count) = snd (frand_range 4 8 rng_count)"
    using completes_ex T by (simp add: update_shape_def tracked_complete Let_def)
  have dr: "fst (frand_range (3 / 2) (5 / 2) (snd (frand_range 4 8 rng_count))) = 3 / 2 + 1 / 32767"
    by (simp add: frand_range_def frand01_def rand_def rng_count_def case_prod_beta)
  have o: "orient (fst (update_shape ex_reorienting (1 / 16) rng_count))
      = q_mul (spin_delta ex_reorienting 1 (1 / 16)) q_ident"
    using completes_ex T tg by (simp add: update_shape_def tracked_complete Let_def)
  have t: "target (fst (update_shape ex_reorienting (1 / 16) rng_count)) = q_ident"
    using completes_ex T tg by (simp add: update_shape_def tracked_complete Let_def)
  have "qy (q_mul (spin_delta ex_reorienting 1 (1 / 16)) q_ident) = sin (pi / 32) * cos (pi / 384)"
    by (simp add: spin_ex q_mul_def q_ident_def)
  then have ne: "q_mul (spin_delta ex_reorienting 1 (1 / 16)) q_ident \<noteq> q_ident"
    using spin_ex_qy by (auto simp: q_ident_def)
  have d: "reorientDur (fst (update_shape ex_reorienting (1 / 16) rng_count)) = 2"
    using completes_ex du by (simp add: update_shape_def tracked_complete Let_def)
  show ?thesis using completes_ex d g' dr o t ne by simp
qed

section \<open>The colour of a frame\<close>


lemma to_float_1: "to_float 1 = 1"
  by (simp add: to_float_def round_even_def pow2_def Let_def)

lemma floor_log2:
  assumes "2 ^ n \<le> x" "x < 2 ^ Suc n"
  shows "\<lfloor>log 2 x\<rfloor> = int n"
proof -
  have x: "0 < x" using assms(1) by (smt (verit) zero_less_power)
  have "2 powr real_of_int (int n) \<le> x" using assms(1) by (simp add: powr_realpow)
  moreover have "x < 2 powr (real_of_int (int n) + 1)"
    using assms(2) by (simp add: powr_add powr_realpow)
  ultimately show ?thesis
    using x by (simp add: floor_log_eq_powr_iff)
qed

lemma to_float_large: "to_float 16777217 = 16777216"
proof -
  have "\<lfloor>log 2 (16777217::real)\<rfloor> = int 24" by (rule floor_log2) simp_all
  then show ?thesis
    by (simp add: to_float_def round_even_def pow2_def Let_def)
qed

text \<open>Conversions of single hues, and \<^verbatim>\<open>fmodf\<close> by 1.\<close>

lemma hsv0: "hsv2rgb 0 1 1 = v3 1 0 0"
  by (simp add: hsv2rgb_def c_rem_def)

















section \<open>Placement\<close>

lemma startup_geom_total: "\<exists>g. startup_geom k = Some g"
  using sphere_10_16 make_torus_inv [of 32 12 1 "35 / 100"] by (cases k) auto

lemma init_runtime_worldPos: "worldPos (fst (init_runtime sc p g r)) = p"
  by (simp add: init_runtime_def case_prod_beta)

lemma build_runtime_step:
  assumes "startup_geom (cfg_shape sc) = Some geo"
  shows "build_runtime monCount (sc # scs) qc g =
      (case build_runtime monCount scs
              (qc(clamp_mon monCount (screen sc) :=
                    (qc (clamp_mon monCount (screen sc)))
                      (pos sc := qc (clamp_mon monCount (screen sc)) (pos sc) + 1)))
              (snd (init_runtime sc (place (pos sc) (qc (clamp_mon monCount (screen sc)) (pos sc))) geo g)) of
         None \<Rightarrow> None
       | Some (Rs, r2) \<Rightarrow>
           Some (fst (init_runtime sc (place (pos sc) (qc (clamp_mon monCount (screen sc)) (pos sc))) geo g) # Rs, r2))"
  by (simp add: assms Let_def case_prod_beta)

lemma build_runtime_total:
  "\<exists>Rs g'. build_runtime monCount cfgs qc g = Some (Rs, g') \<and> length Rs = length cfgs"
proof (induction cfgs arbitrary: qc g)
  case Nil
  then show ?case by simp
next
  case (Cons sc scs)
  define qc' where "qc' = qc(clamp_mon monCount (screen sc) :=
                (qc (clamp_mon monCount (screen sc)))
                  (pos sc := qc (clamp_mon monCount (screen sc)) (pos sc) + 1))"
  obtain geo where geo: "startup_geom (cfg_shape sc) = Some geo"
    using startup_geom_total by blast
  define R where "R = fst (init_runtime sc (place (pos sc) (qc (clamp_mon monCount (screen sc)) (pos sc))) geo g)"
  define g1 where "g1 = snd (init_runtime sc (place (pos sc) (qc (clamp_mon monCount (screen sc)) (pos sc))) geo g)"
  obtain Rs g' where tl: "build_runtime monCount scs qc' g1 = Some (Rs, g')"
    and len: "length Rs = length scs"
    using Cons.IH [of qc' g1] by blast
  have "build_runtime monCount (sc # scs) qc g = Some (R # Rs, g')"
    unfolding build_runtime_step [OF geo] qc'_def [symmetric] g1_def [symmetric] R_def [symmetric]
    by (simp add: tl)
  with len show ?case by simp
qed

lemma build_runtime_pos:
  "i < length cfgs \<Longrightarrow> build_runtime monCount cfgs qc g = Some (Rs, g') \<Longrightarrow>
     worldPos (Rs ! i)
         = place (pos (cfgs ! i))
             (qc (clamp_mon monCount (screen (cfgs ! i))) (pos (cfgs ! i))
              + earlier_same monCount cfgs i)"
proof (induction cfgs arbitrary: i qc g Rs)
  case Nil
  then show ?case by simp
next
  case (Cons sc scs)
  define qc' where "qc' = qc(clamp_mon monCount (screen sc) :=
                (qc (clamp_mon monCount (screen sc)))
                  (pos sc := qc (clamp_mon monCount (screen sc)) (pos sc) + 1))"
  obtain geo where geo: "startup_geom (cfg_shape sc) = Some geo"
    using startup_geom_total by blast
  define R where "R = fst (init_runtime sc (place (pos sc) (qc (clamp_mon monCount (screen sc)) (pos sc))) geo g)"
  define g1 where "g1 = snd (init_runtime sc (place (pos sc) (qc (clamp_mon monCount (screen sc)) (pos sc))) geo g)"
  from Cons.prems(2) obtain Rs' where
    tl: "build_runtime monCount scs qc' g1 = Some (Rs', g')" and Rs: "Rs = R # Rs'"
    unfolding build_runtime_step [OF geo] qc'_def [symmetric] g1_def [symmetric] R_def [symmetric]
    by (auto split: option.splits)
  show ?case
  proof (cases i)
    case 0
    then show ?thesis
      by (simp add: Rs R_def init_runtime_worldPos earlier_same_def)
  next
    case (Suc j)
    then have j: "j < length scs" using Cons.prems by simp
    have w: "worldPos (Rs' ! j) = place (pos (scs ! j))
               (qc' (clamp_mon monCount (screen (scs ! j))) (pos (scs ! j))
                + earlier_same monCount scs j)"
      using Cons.IH [OF j tl] .
    have cnt: "qc' (clamp_mon monCount (screen (scs ! j))) (pos (scs ! j)) + earlier_same monCount scs j
        = qc (clamp_mon monCount (screen (scs ! j))) (pos (scs ! j))
          + earlier_same monCount (sc # scs) (Suc j)"
      by (simp add: qc'_def earlier_same_def same_slot_def)
    show ?thesis
      using Suc w cnt by (simp add: Rs)
  qed
qed

lemma place_coords:
  "place a N =
     (let anc = anchor_to_ndc a; off = (5 / 100) * real_of_int N
      in v3 (if vx anc < 0 then vx anc + 12 / 100 + off
             else if vx anc > 0 then vx anc - 12 / 100 - off else - off)
            (if vy anc < 0 then vy anc + 12 / 100 + off
             else if vy anc > 0 then vy anc - 12 / 100 - off else - off)
            0)"
  by (cases a) (simp_all add: place_def anchor_margin_def Let_def)

lemma margin_coords:
  "anchor_margin (anchor_to_ndc a) (12 / 100) =
     (let anc = anchor_to_ndc a
      in v3 (if vx anc < 0 then vx anc + 12 / 100 else if vx anc > 0 then vx anc - 12 / 100 else 0)
            (if vy anc < 0 then vy anc + 12 / 100 else if vy anc > 0 then vy anc - 12 / 100 else 0)
            0)"
  by (cases a) (simp_all add: anchor_margin_def Let_def)

text \<open>Claim C6, amended. With at most the 16 monitors of the counter table, the \<open>i\<close>-th
  configured shape, the \<open>N\<close>-th of its anchor on its monitor (\<open>N\<close> from 0), is placed at
  the margin-adjusted anchor position plus an offset of magnitude \<open>0.05 * N\<close> on each
  axis. On an axis where the anchor coordinate is negative the offset is positive, as the
  margin pull is; where the coordinate is positive the offset is negative, as the margin
  pull is; where the coordinate is 0, and the margin pull moves nothing, the offset is
  negative.\<close>

theorem overlap_offset:
  assumes "i < length cfgs" and "0 < monCount" and "monCount \<le> 16"
  shows "\<exists>Rs g'. build_runtime monCount cfgs (\<lambda>m a. 0) g = Some (Rs, g')
     \<and> (let anc = anchor_to_ndc (pos (cfgs ! i));
             p = anchor_margin anc (12 / 100);
             off = (5 / 100) * real_of_int (earlier_same monCount cfgs i)
         in worldPos (Rs ! i)
              = v3 (vx p + (if vx anc < 0 then off else - off))
                   (vy p + (if vy anc < 0 then off else - off)) 0
            \<and> vx p = (if vx anc < 0 then vx anc + 12 / 100
                      else if vx anc > 0 then vx anc - 12 / 100 else vx anc)
            \<and> vy p = (if vy anc < 0 then vy anc + 12 / 100
                      else if vy anc > 0 then vy anc - 12 / 100 else vy anc))"
proof -
  obtain Rs g' where b: "build_runtime monCount cfgs (\<lambda>m a. 0) g = Some (Rs, g')"
    using build_runtime_total by blast
  have w: "worldPos (Rs ! i) = place (pos (cfgs ! i)) (earlier_same monCount cfgs i)"
    using build_runtime_pos [OF assms(1) b] by simp
  show ?thesis
    using b w by (cases "pos (cfgs ! i)") (simp_all add: place_def anchor_margin_def Let_def)
qed

text \<open>Claim C6 as stated fails at the anchor CENTER. The margin pull moves neither coordinate
  of CENTER, whatever the margin, so its sign convention gives the second shape there
  (\<open>N = 1\<close>) no direction, and no offset; the code moves it by 0.05 to the left and 0.05
  down, away from the centre.\<close>

theorem overlap_offset_counterexample:
  "place POS_C 1 = v3 (- (5 / 100)) (- (5 / 100)) 0
   \<and> anchor_margin (anchor_to_ndc POS_C) (12 / 100) = v3 0 0 0
   \<and> anchor_margin (anchor_margin (anchor_to_ndc POS_C) (12 / 100)) (5 / 100) = v3 0 0 0"
  by (simp add: place_def anchor_margin_def Let_def)

text \<open>Two shapes at BOTTOM-RIGHT on the only monitor: the second sits 0.05 to the left of
  and 0.05 above the margin-adjusted corner \<open>(0.88, -0.88)\<close>.\<close>

theorem overlap_offset_witness:
  "\<exists>Rs g'. build_runtime 1 [ShapeConfig SH_CUBE COL_RED POS_BR 0, ShapeConfig SH_PYRAMID COL_BLUE POS_BR 0]
              (\<lambda>m a. 0) rng_zero = Some (Rs, g')
     \<and> worldPos (Rs ! 1) = v3 (83 / 100) (- (83 / 100)) 0"
  using overlap_offset [of 1 "[ShapeConfig SH_CUBE COL_RED POS_BR 0, ShapeConfig SH_PYRAMID COL_BLUE POS_BR 0]" 1 rng_zero]
  by (simp add: earlier_same_def same_slot_def anchor_margin_def Let_def)

section \<open>The render loop\<close>

lemma any_open_fold:
  "fold (\<lambda>closed anyOpen. if \<not> closed then 1 else anyOpen) flags a
     = (if False \<in> set flags then 1 else (a::int))"
  by (induction flags arbitrary: a) auto

lemma any_open_zero: "any_open flags = 0 \<longleftrightarrow> False \<notin> set flags"
  by (simp add: any_open_def any_open_fold)

lemma app_loop_exit:
  assumes "app_loop W0 k0 st0 = Some r0"
  shows "k0 \<le> fst r0 \<and> False \<notin> set (should_close W0 (fst r0))
         \<and> (\<forall>j. k0 \<le> j \<and> j < fst r0 \<longrightarrow> False \<in> set (should_close W0 j))"
proof (rule app_loop.raw_induct
    [where P = "\<lambda>W k st r. k \<le> fst r \<and> False \<notin> set (should_close W (fst r))
         \<and> (\<forall>j. k \<le> j \<and> j < fst r \<longrightarrow> False \<in> set (should_close W j))", OF _ assms])
  fix loop :: "world \<Rightarrow> nat \<Rightarrow> loop_state \<Rightarrow> (nat \<times> loop_state) option"
    and W k st r
  assume IH: "\<And>W k st r. loop W k st = Some r \<Longrightarrow>
      k \<le> fst r \<and> False \<notin> set (should_close W (fst r))
         \<and> (\<forall>j. k \<le> j \<and> j < fst r \<longrightarrow> False \<in> set (should_close W j))"
    and eq: "(if any_open (should_close W k) = 0 then Some (k, st)
              else loop W (Suc k) (frame W k st)) = Some r"
  show "k \<le> fst r \<and> False \<notin> set (should_close W (fst r))
         \<and> (\<forall>j. k \<le> j \<and> j < fst r \<longrightarrow> False \<in> set (should_close W j))"
  proof (cases "any_open (should_close W k) = 0")
    case True
    with eq have "r = (k, st)" by simp
    with True show ?thesis by (auto simp: any_open_zero)
  next
    case False
    with eq have "loop W (Suc k) (frame W k st) = Some r" by simp
    from IH [OF this] have ih: "Suc k \<le> fst r" "False \<notin> set (should_close W (fst r))"
      "\<forall>j. Suc k \<le> j \<and> j < fst r \<longrightarrow> False \<in> set (should_close W j)"
      by simp_all
    have "False \<in> set (should_close W j)" if "k \<le> j" "j < fst r" for j
    proof (cases "j = k")
      case True
      with False show ?thesis by (simp add: any_open_zero)
    next
      case False
      with that have "Suc k \<le> j" by simp
      with that ih(3) show ?thesis by blast
    qed
    with ih(1,2) show ?thesis by simp
  qed
qed

lemma app_loop_returns:
  assumes "k \<le> m" and "False \<notin> set (should_close W m)"
  shows "\<exists>n st'. n \<le> m \<and> app_loop W k st = Some (n, st')"
  using assms(1)
proof (induction "m - k" arbitrary: k st)
  case 0
  then have "k = m" by simp
  with assms(2) have "any_open (should_close W k) = 0" by (simp add: any_open_zero)
  then have "app_loop W k st = Some (k, st)"
    by (subst app_loop.simps) simp
  with \<open>k = m\<close> show ?case by blast
next
  case (Suc d)
  show ?case
  proof (cases "any_open (should_close W k) = 0")
    case True
    then have "app_loop W k st = Some (k, st)"
      by (subst app_loop.simps) simp
    with Suc.prems show ?thesis by blast
  next
    case False
    from Suc(2) Suc.prems have "d = m - Suc k" "Suc k \<le> m" by simp_all
    from Suc(1) [OF this, of "frame W k st"] obtain n st' where
      "n \<le> m" "app_loop W (Suc k) (frame W k st) = Some (n, st')" by blast
    moreover have "app_loop W k st = app_loop W (Suc k) (frame W k st)"
      using False by (subst app_loop.simps) simp
    ultimately show ?thesis by simp
  qed
qed

text \<open>Claim C9. The flags are read once per iteration, at its top. If the loop leaves in
  iteration \<open>n\<close>, every close flag read in iteration \<open>n\<close> is true, and in every iteration
  before some flag read was false: the loop does not leave while a window is open. If in
  some iteration \<open>m\<close> every flag read is true, the loop does leave, in iteration \<open>m\<close> at
  the latest. If in every iteration some flag is false, the loop never leaves.\<close>

theorem app_loop_exits_when_all_closed:
  "(app_loop W 0 st = Some (n, st') \<longrightarrow>
      False \<notin> set (should_close W n) \<and> (\<forall>j<n. False \<in> set (should_close W j)))
   \<and> (False \<notin> set (should_close W m) \<longrightarrow> (\<exists>n st'. n \<le> m \<and> app_loop W 0 st = Some (n, st')))
   \<and> ((\<forall>j. False \<in> set (should_close W j)) \<longrightarrow> app_loop W 0 st = None)"
proof (intro conjI impI)
  assume "app_loop W 0 st = Some (n, st')"
  from app_loop_exit [OF this]
  show "False \<notin> set (should_close W n)" and "\<forall>j<n. False \<in> set (should_close W j)"
    by simp_all
next
  assume "False \<notin> set (should_close W m)"
  then show "\<exists>n st'. n \<le> m \<and> app_loop W 0 st = Some (n, st')"
    using app_loop_returns [of 0 m W st] by simp
next
  assume never: "\<forall>j. False \<in> set (should_close W j)"
  show "app_loop W 0 st = None"
  proof (cases "app_loop W 0 st")
    case None
    then show ?thesis .
  next
    case (Some r)
    from app_loop_exit [OF this] never show ?thesis by blast
  qed
qed

text \<open>Two windows, closed one after the other: the loop runs iterations 0 and 1 and leaves
  in iteration 2.\<close>

theorem app_loop_exits_when_all_closed_witness:
  "False \<in> set (should_close ex_world 0) \<and> False \<in> set (should_close ex_world 1)
   \<and> False \<notin> set (should_close ex_world 2)
   \<and> (\<exists>st'. app_loop ex_world 0 ex_state = Some (2, st'))"
proof -
  have f: "False \<in> set (should_close ex_world 0)" "False \<in> set (should_close ex_world 1)"
    "False \<notin> set (should_close ex_world 2)"
    by (simp_all add: ex_world_def)
  from app_loop_exits_when_all_closed [of ex_world ex_state 2 ex_state 2] f(3)
  obtain n st' where n: "n \<le> 2" and r: "app_loop ex_world 0 ex_state = Some (n, st')"
    by blast
  from app_loop_exits_when_all_closed [of ex_world ex_state n st' 2] r
  have c: "False \<notin> set (should_close ex_world n)" by blast
  have "n \<noteq> 0" using c f(1) by (intro notI) simp
  moreover have "n \<noteq> 1" using c f(2) by (intro notI) simp
  ultimately have "n = 2" using n by simp
  with r f show ?thesis by blast
qed

section \<open>The configuration file\<close>






lemma ex_skipped_lines:
  "file_lines ex_file_skipped = [''# comment'' @ [CHR 0x0A], [CHR 0x0A], ''BAD=[RED]'' @ [CHR 0x0A],
     ''CUBE=[RED, MIDDLE, 0]'' @ [CHR 0x0A]]"
  by code_simp






section \<open>The screen field of a line\<close>












text \<open>The largest value that fits, and the first one that does not.\<close>

lemma atoi_wraps: "atoi ''2147483647'' = 2147483647" "atoi ''2147483648'' = - 2147483648"
  by code_simp+







end
